theory Spec2Isabelle
  imports Complex_Main
begin

section \<open>Data model of the augmentation pipeline\<close>

text \<open>
  The transforms of \<^verbatim>\<open>augmentations.py\<close> consume and produce the triple
  \<^verbatim>\<open>(image, boxes, labels)\<close>. Every exception the Python raises is a value of
  \<open>error\<close>; a transform returns \<open>error + triple\<close>. Random draws are explicit
  arguments, named after the call that makes them; a draw the source does not make on
  some path is ignored on that path.

  Numbers are reals. Where the value of a float result decides a stated property, the
  operation is rounded as numpy rounds it (\<open>fl64\<close>, \<open>fl32\<close> below): the subtraction
  of \<^verbatim>\<open>RandomMirror\<close>, the scale pair and the product of \<^verbatim>\<open>Resize\<close>, the products
  and sums of \<^verbatim>\<open>Expand\<close>, with boxes of dtype \<^verbatim>\<open>float64\<close>. The other arithmetic
  (pixel values, overlap measures, the croppers) is exact.
\<close>

datatype error =
  TypeError | ValueError | IndexError | AttributeError | ZeroDivisionError | NotImplementedError

text \<open>A 2-D numeric array of shape \<open>(length (rows a), ncols a)\<close>; the column count is
  kept beside the rows because numpy keeps it for an array without rows.\<close>

record array2 =
  ncols :: nat
  rows :: "real list list"

definition wf_array2 :: "array2 \<Rightarrow> bool" where
  "wf_array2 a = list_all (\<lambda>r. length r = ncols a) (rows a)"

text \<open>A 3-D numeric array of shape \<open>(dim0, dim1, dim2)\<close>. An image is such an array
  with axes (height, width, channel): \<open>cells im ! y ! x ! k\<close>; the tensor that
  \<^verbatim>\<open>ToTensor\<close> returns has axes (channel, height, width).\<close>

record array3 =
  dim0 :: nat
  dim1 :: nat
  dim2 :: nat
  cells :: "real list list list"

definition wf_array3 :: "array3 \<Rightarrow> bool" where
  "wf_array3 im =
     (length (cells im) = dim0 im \<and>
      list_all (\<lambda>row. length row = dim1 im \<and>
                      list_all (\<lambda>px. length px = dim2 im) row) (cells im))"

type_synonym triple = "array3 \<times> array2 option \<times> int list option"

subsection \<open>Python and numpy primitives\<close>

text \<open>IEEE 754 binary floats, rounded to nearest with ties to even. \<open>binary_exponent\<close>
  finds \<open>e\<close> with \<open>2 ^ e \<le> x < 2 ^ (e + 1)\<close> for a positive \<open>x\<close> (searching at most
  2200 binary orders, more than the format has); \<open>round_to p\<close> keeps \<open>p\<close> stored
  mantissa bits. Overflow to infinity and the subnormal numbers are outside this model.\<close>

fun binary_exponent :: "nat \<Rightarrow> real \<Rightarrow> int" where
  "binary_exponent 0 x = 0"
| "binary_exponent (Suc n) x =
     (if 2 \<le> x then binary_exponent n (x / 2) + 1
      else if x < 1 then binary_exponent n (2 * x) - 1
      else 0)"

definition round_half_even :: "real \<Rightarrow> int" where
  "round_half_even x =
     (let f = \<lfloor>x\<rfloor>; r = x - real_of_int f
      in if r < 1 / 2 then f else if 1 / 2 < r then f + 1 else if even f then f else f + 1)"

definition round_to :: "nat \<Rightarrow> real \<Rightarrow> real" where
  "round_to p x =
     (if x = 0 then 0
      else
        (let e = binary_exponent 2200 \<bar>x\<bar> - int p;
             u = (if 0 \<le> e then 2 ^ nat e else 1 / 2 ^ nat (- e))
         in real_of_int (round_half_even (x / u)) * u))"

text \<open>\<^verbatim>\<open>float64\<close> stores 52 mantissa bits, \<^verbatim>\<open>float32\<close> stores 23.\<close>

definition fl64 :: "real \<Rightarrow> real" where
  "fl64 = round_to 52"

definition fl32 :: "real \<Rightarrow> real" where
  "fl32 = round_to 23"

text \<open>\<^verbatim>\<open>int(x)\<close> on a float truncates towards zero.\<close>

definition py_int :: "real \<Rightarrow> int" where
  "py_int x = (if 0 \<le> x then \<lfloor>x\<rfloor> else \<lceil>x\<rceil>)"

text \<open>Index clamping of a slice with positive step (into \<open>0..n\<close>) and with negative
  step (into \<open>-1..n-1\<close>), as CPython adjusts slice bounds.\<close>

definition adjust_pos :: "int \<Rightarrow> nat \<Rightarrow> int" where
  "adjust_pos i n = (if i < 0 then max 0 (i + int n) else min i (int n))"

definition adjust_neg :: "int \<Rightarrow> nat \<Rightarrow> int" where
  "adjust_neg i n = (if i < 0 then max (- 1) (i + int n) else min i (int n - 1))"

text \<open>The indices selected by \<^verbatim>\<open>start:stop:step\<close> on an axis of length \<open>n\<close>
  (\<open>None\<close> is an omitted bound; the source only uses non-zero constant steps).\<close>

definition slice_indices :: "int option \<Rightarrow> int option \<Rightarrow> int \<Rightarrow> nat \<Rightarrow> nat list" where
  "slice_indices start stop step n =
     (if 0 < step then
        (let s = (case start of None \<Rightarrow> 0 | Some a \<Rightarrow> adjust_pos a n);
             e = (case stop of None \<Rightarrow> int n | Some b \<Rightarrow> adjust_pos b n)
         in map (\<lambda>k. nat (s + int k * step)) [0..<nat ((e - s + step - 1) div step)])
      else
        (let s = (case start of None \<Rightarrow> int n - 1 | Some a \<Rightarrow> adjust_neg a n);
             e = (case stop of None \<Rightarrow> - 1 | Some b \<Rightarrow> adjust_neg b n)
         in map (\<lambda>k. nat (s + int k * step)) [0..<nat ((s - e - step - 1) div (- step))]))"

text \<open>\<^verbatim>\<open>xs[a:b]\<close> with step 1.\<close>

definition py_slice :: "int \<Rightarrow> int \<Rightarrow> 'a list \<Rightarrow> 'a list" where
  "py_slice a b xs =
     (let s = nat (adjust_pos a (length xs)); e = nat (adjust_pos b (length xs))
      in take (e - s) (drop s xs))"

text \<open>\<^verbatim>\<open>a[:, idx]\<close> for a list of column indices within range.\<close>

definition take_cols :: "nat list \<Rightarrow> array2 \<Rightarrow> array2" where
  "take_cols idx a = \<lparr>ncols = length idx, rows = map (\<lambda>r. map (\<lambda>j. r ! j) idx) (rows a)\<rparr>"

text \<open>Writing the values \<open>vs\<close> at the positions \<open>idx\<close> of one row.\<close>

fun put_at :: "nat list \<Rightarrow> real list \<Rightarrow> real list \<Rightarrow> real list" where
  "put_at (j # js) (v # vs) r = put_at js vs (r[j := v])"
| "put_at _ _ r = r"

text \<open>\<^verbatim>\<open>a[:, idx] = v\<close> where \<open>v\<close> has as many rows as \<open>a\<close>: numpy broadcasts a
  one-column \<open>v\<close> over the selected columns and refuses any other column mismatch.\<close>

definition assign_cols :: "nat list \<Rightarrow> array2 \<Rightarrow> array2 \<Rightarrow> error + array2" where
  "assign_cols idx v a =
     (if ncols v = length idx then
        Inr (a\<lparr>rows := map2 (\<lambda>r vr. put_at idx vr r) (rows a) (rows v)\<rparr>)
      else if ncols v = 1 then
        Inr (a\<lparr>rows := map2 (\<lambda>r vr. put_at idx (replicate (length idx) (hd vr)) r)
                          (rows a) (rows v)\<rparr>)
      else Inl ValueError)"

text \<open>\<^verbatim>\<open>c - a\<close> for a scalar \<open>c\<close> and a \<^verbatim>\<open>float64\<close> array: every difference is
  rounded.\<close>

definition rsub_scalar :: "real \<Rightarrow> array2 \<Rightarrow> array2" where
  "rsub_scalar c a = a\<lparr>rows := map (map (\<lambda>x. fl64 (c - x))) (rows a)\<rparr>"

text \<open>numpy broadcasting of one axis: an axis of the wanted length is taken as it is, an
  axis of length one is repeated, anything else is a shape mismatch.\<close>

definition bcast :: "nat \<Rightarrow> 'a list \<Rightarrow> 'a list option" where
  "bcast n xs =
     (if length xs = n then Some xs
      else if length xs = 1 then Some (replicate n (hd xs))
      else None)"

text \<open>\<^verbatim>\<open>np.tile(v, n)\<close> on a 1-D array.\<close>

definition tile :: "'a list \<Rightarrow> nat \<Rightarrow> 'a list" where
  "tile v n = concat (replicate n v)"

text \<open>\<^verbatim>\<open>a * v\<close> for a 2-D \<^verbatim>\<open>float64\<close> array \<open>a\<close> and a 1-D array \<open>v\<close>: the result is
  a new \<^verbatim>\<open>float64\<close> array, every product rounded.\<close>

definition mul_bcast :: "array2 \<Rightarrow> real list \<Rightarrow> error + array2" where
  "mul_bcast a v =
     (if ncols a = length v then
        Inr (a\<lparr>rows := map (\<lambda>r. map2 (\<lambda>x s. fl64 (x * s)) r v) (rows a)\<rparr>)
      else if ncols a = 1 then
        Inr \<lparr>ncols = length v, rows = map (\<lambda>r. map (\<lambda>s. fl64 (hd r * s)) v) (rows a)\<rparr>
      else if length v = 1 then
        Inr (a\<lparr>rows := map (map (\<lambda>x. fl64 (x * hd v))) (rows a)\<rparr>)
      else Inl ValueError)"

text \<open>An elementwise operation on every cell of a 3-D array.\<close>

definition map_cells :: "(real \<Rightarrow> real) \<Rightarrow> array3 \<Rightarrow> array3" where
  "map_cells f im = im\<lparr>cells := map (map (map f)) (cells im)\<rparr>"

text \<open>\<^verbatim>\<open>image[image>255] = 255; image[image<0] = 0\<close>, cell by cell.\<close>

definition clip_0_255 :: "real \<Rightarrow> real" where
  "clip_0_255 x = (let y = (if x > 255 then 255 else x) in if y < 0 then 0 else y)"

text \<open>\<^verbatim>\<open>np.clip(x, lo, hi)\<close> is \<^verbatim>\<open>minimum(hi, maximum(x, lo))\<close>.\<close>

definition np_clip :: "real \<Rightarrow> real \<Rightarrow> real \<Rightarrow> real" where
  "np_clip lo hi x = min hi (max x lo)"

text \<open>The result of a float division: numpy divides by zero without raising, giving an
  infinity or a nan, and every comparison with a nan is false.\<close>

datatype npfloat = Fin real | PInf | NInf | NaN

definition np_div :: "real \<Rightarrow> real \<Rightarrow> npfloat" where
  "np_div x y =
     (if y \<noteq> 0 then Fin (x / y) else if x > 0 then PInf else if x < 0 then NInf else NaN)"

fun np_lt :: "npfloat \<Rightarrow> npfloat \<Rightarrow> bool" where
  "np_lt NaN _ = False"
| "np_lt _ NaN = False"
| "np_lt _ NInf = False"
| "np_lt NInf _ = True"
| "np_lt PInf _ = False"
| "np_lt (Fin x) PInf = True"
| "np_lt (Fin x) (Fin y) = (x < y)"

definition np_le :: "npfloat \<Rightarrow> npfloat \<Rightarrow> bool" where
  "np_le a b = (a \<noteq> NaN \<and> b \<noteq> NaN \<and> \<not> np_lt b a)"

text \<open>\<^verbatim>\<open>a.min()\<close> and \<^verbatim>\<open>a.max()\<close> of a non-empty array: a nan wins.\<close>

definition np_min2 :: "npfloat \<Rightarrow> npfloat \<Rightarrow> npfloat" where
  "np_min2 a b = (if a = NaN \<or> b = NaN then NaN else if np_lt b a then b else a)"

definition np_max2 :: "npfloat \<Rightarrow> npfloat \<Rightarrow> npfloat" where
  "np_max2 a b = (if a = NaN \<or> b = NaN then NaN else if np_lt a b then b else a)"

definition np_min :: "npfloat list \<Rightarrow> npfloat" where
  "np_min xs = foldl np_min2 (hd xs) (tl xs)"

definition np_max :: "npfloat list \<Rightarrow> npfloat" where
  "np_max xs = foldl np_max2 (hd xs) (tl xs)"

section \<open>Overlap measures\<close>

text \<open>\<^verbatim>\<open>intersect\<close> for one row \<open>[x1, y1, x2, y2]\<close> of \<open>box_a\<close> against the rectangle
  \<open>box_b\<close>.\<close>

definition intersect_row :: "real list \<Rightarrow> int list \<Rightarrow> real" where
  "intersect_row r box_b =
     (let max_x = min (r ! 2) (real_of_int (box_b ! 2));
          max_y = min (r ! 3) (real_of_int (box_b ! 3));
          min_x = max (r ! 0) (real_of_int (box_b ! 0));
          min_y = max (r ! 1) (real_of_int (box_b ! 1))
      in max 0 (max_x - min_x) * max 0 (max_y - min_y))"

definition area_row :: "real list \<Rightarrow> real" where
  "area_row r = (r ! 2 - r ! 0) * (r ! 3 - r ! 1)"

text \<open>The slices \<^verbatim>\<open>box_a[:, 2:]\<close> and \<^verbatim>\<open>box_a[:, :2]\<close> broadcast against two
  numbers only for four columns (and for three, where \<^verbatim>\<open>box_a[:, 3]\<close> then fails).\<close>

definition box_shape_check :: "array2 \<Rightarrow> error option" where
  "box_shape_check box_a =
     (if ncols box_a = 4 then None
      else if ncols box_a = 3 then Some IndexError
      else Some ValueError)"

definition jaccard_numpy :: "array2 \<Rightarrow> int list \<Rightarrow> error + npfloat list" where
  "jaccard_numpy box_a box_b =
     (case box_shape_check box_a of
        Some e \<Rightarrow> Inl e
      | None \<Rightarrow>
          Inr (map (\<lambda>r.
                 let inter_a = intersect_row r box_b;
                     area_a = area_row r;
                     area_b = real_of_int ((box_b ! 2 - box_b ! 0) * (box_b ! 3 - box_b ! 1));
                     union_ab = area_a + area_b - inter_a
                 in np_div inter_a union_ab) (rows box_a)))"

definition modified_jaccard_numpy :: "array2 \<Rightarrow> int list \<Rightarrow> error + npfloat list" where
  "modified_jaccard_numpy box_a box_b =
     (case box_shape_check box_a of
        Some e \<Rightarrow> Inl e
      | None \<Rightarrow>
          Inr (map (\<lambda>r.
                 let inter_a = intersect_row r box_b;
                     area_a = area_row r;
                     union_ab = area_a
                 in np_div inter_a union_ab) (rows box_a)))"

section \<open>Compose and the conversions\<close>

text \<open>A transform with its random draws supplied is a function on triples; \<^verbatim>\<open>Compose\<close>
  threads the triple through the list and stops at the first exception.\<close>

fun Compose :: "(triple \<Rightarrow> error + triple) list \<Rightarrow> triple \<Rightarrow> error + triple" where
  "Compose [] t = Inr t"
| "Compose (f # fs) t = (case f t of Inl e \<Rightarrow> Inl e | Inr t' \<Rightarrow> Compose fs t')"

text \<open>\<^verbatim>\<open>astype(np.float32)\<close> changes no value of this model.\<close>

definition ConvertFromInts :: "triple \<Rightarrow> error + triple" where
  "ConvertFromInts t = (case t of (img, boxes, labels) \<Rightarrow> Inr (img, boxes, labels))"

text \<open>The in-place \<^verbatim>\<open>image -= self.mean\<close> and \<^verbatim>\<open>image /= self.var\<close> need a vector as
  long as the channel axis, or of length one. Every variance the file builds is
  positive; a zero variance (numpy: inf or nan, no exception) is outside this model.\<close>

definition Normalize :: "real list \<Rightarrow> real list \<Rightarrow> triple \<Rightarrow> error + triple" where
  "Normalize mean var t =
     (case t of (img, boxes, labels) \<Rightarrow>
        (case bcast (dim2 img) mean of
           None \<Rightarrow> Inl ValueError
         | Some ms \<Rightarrow>
             (case bcast (dim2 img) var of
                None \<Rightarrow> Inl ValueError
              | Some vs \<Rightarrow>
                  Inr (img\<lparr>cells :=
                         map (map (\<lambda>px. map2 (\<lambda>x (m, v). (x / 255 - m) / v) px (zip ms vs)))
                           (cells img)\<rparr>, boxes, labels))))"

text \<open>\<open>cv_resize\<close> stands for \<^verbatim>\<open>cv2.resize(image.astype(np.uint8), (size, size),
  interpolation=cv2.INTER_CUBIC)\<close>, which is not code of this repository. The scale
  factors are Python divisions of integers, which raise on a zero divisor and round the
  quotient to a float; \<^verbatim>\<open>np.array(..., dtype=np.float32)\<close> then rounds it to
  \<^verbatim>\<open>float32\<close>.\<close>

definition Resize :: "(array3 \<Rightarrow> nat \<Rightarrow> nat \<Rightarrow> array3) \<Rightarrow> nat \<Rightarrow> triple \<Rightarrow> error + triple" where
  "Resize cv_resize sz t =
     (case t of (img, boxes, labels) \<Rightarrow>
        (let h = dim0 img; w = dim1 img in
         case boxes of
           None \<Rightarrow> Inr (cv_resize img sz sz, None, labels)
         | Some b \<Rightarrow>
             if w = 0 \<or> h = 0 then Inl ZeroDivisionError
             else
               (let new_wh = [fl32 (fl64 (real sz / real w)), fl32 (fl64 (real sz / real h))] in
                case mul_bcast b (tile new_wh 4) of
                  Inl e \<Rightarrow> Inl e
                | Inr b' \<Rightarrow> Inr (cv_resize img sz sz, Some b', labels))))"

text \<open>\<^verbatim>\<open>permute(2, 0, 1)\<close>: cell \<open>(k, i, j)\<close> of the result is cell \<open>(i, j, k)\<close> of the
  argument; \<^verbatim>\<open>transpose((1, 2, 0))\<close> is its inverse.\<close>

definition permute_2_0_1 :: "array3 \<Rightarrow> array3" where
  "permute_2_0_1 a =
     \<lparr>dim0 = dim2 a, dim1 = dim0 a, dim2 = dim1 a,
      cells = map (\<lambda>k. map (\<lambda>i. map (\<lambda>j. cells a ! i ! j ! k) [0..<dim1 a]) [0..<dim0 a])
                [0..<dim2 a]\<rparr>"

definition transpose_1_2_0 :: "array3 \<Rightarrow> array3" where
  "transpose_1_2_0 a =
     \<lparr>dim0 = dim1 a, dim1 = dim2 a, dim2 = dim0 a,
      cells = map (\<lambda>i. map (\<lambda>j. map (\<lambda>k. cells a ! k ! i ! j) [0..<dim0 a]) [0..<dim2 a])
                [0..<dim1 a]\<rparr>"

definition ToCV2Image :: "triple \<Rightarrow> error + triple" where
  "ToCV2Image t = (case t of (tensor, boxes, labels) \<Rightarrow> Inr (transpose_1_2_0 tensor, boxes, labels))"

text \<open>\<^verbatim>\<open>torch.from_numpy(None)\<close> raises: with boxes present the labels must be present.\<close>

definition ToTensor :: "triple \<Rightarrow> error + triple" where
  "ToTensor t =
     (case t of (cvimage, boxes, labels) \<Rightarrow>
        (case boxes of
           None \<Rightarrow> Inr (permute_2_0_1 cvimage, None, None)
         | Some b \<Rightarrow>
             (case labels of
                None \<Rightarrow> Inl TypeError
              | Some l \<Rightarrow> Inr (permute_2_0_1 cvimage, Some b, Some l))))"

section \<open>Photometric transforms\<close>

text \<open>In each of them \<open>coin\<close> is \<^verbatim>\<open>random.randint(2)\<close> and the real argument is the
  \<^verbatim>\<open>random.uniform\<close> draw of the taken branch.\<close>

definition RandomSaturation :: "nat \<Rightarrow> real \<Rightarrow> triple \<Rightarrow> error + triple" where
  "RandomSaturation coin u t =
     (case t of (img, boxes, labels) \<Rightarrow>
        if coin \<noteq> 0 then
          (if dim2 img < 2 then Inl IndexError
           else Inr (map_cells clip_0_255
                       (img\<lparr>cells := map (map (\<lambda>px. px[1 := px ! 1 * u])) (cells img)\<rparr>),
                     boxes, labels))
        else Inr (img, boxes, labels))"

text \<open>The hue channel after \<^verbatim>\<open>+= u\<close> and the two wraps, each applied once.\<close>

definition wrap_hue :: "real \<Rightarrow> real" where
  "wrap_hue x = (let y = (if x > 360 then x - 360 else x) in if y < 0 then y + 360 else y)"

definition RandomHue :: "nat \<Rightarrow> real \<Rightarrow> triple \<Rightarrow> error + triple" where
  "RandomHue coin u t =
     (case t of (img, boxes, labels) \<Rightarrow>
        if coin \<noteq> 0 then
          (if dim2 img < 1 then Inl IndexError
           else Inr (img\<lparr>cells := map (map (\<lambda>px. px[0 := wrap_hue (px ! 0 + u)])) (cells img)\<rparr>,
                     boxes, labels))
        else Inr (img, boxes, labels))"

text \<open>\<^verbatim>\<open>image[:, :, self.swaps]\<close> for a triple of channel indices.\<close>

definition SwapChannels :: "nat list \<Rightarrow> array3 \<Rightarrow> error + array3" where
  "SwapChannels swaps img =
     (if list_ex (\<lambda>k. dim2 img \<le> k) swaps then Inl IndexError
      else Inr (img\<lparr>dim2 := length swaps,
                    cells := map (map (\<lambda>px. map (\<lambda>k. px ! k) swaps)) (cells img)\<rparr>))"

definition perms :: "nat list list" where
  "perms = [[0, 1, 2], [0, 2, 1], [1, 0, 2], [1, 2, 0], [2, 0, 1], [2, 1, 0]]"

text \<open>\<open>pick\<close> is \<^verbatim>\<open>random.randint(len(self.perms))\<close>, a number below six (any
  other number is reduced modulo six, so that the function is total).\<close>

definition RandomLightingNoise :: "nat \<Rightarrow> nat \<Rightarrow> triple \<Rightarrow> error + triple" where
  "RandomLightingNoise coin pick t =
     (case t of (img, boxes, labels) \<Rightarrow>
        if coin \<noteq> 0 then
          (case SwapChannels (perms ! (pick mod length perms)) img of
             Inl e \<Rightarrow> Inl e
           | Inr img' \<Rightarrow> Inr (img', boxes, labels))
        else Inr (img, boxes, labels))"

datatype color_code = COLOR_BGR2HSV | COLOR_HSV2BGR

text \<open>\<open>cvtColor\<close> stands for \<^verbatim>\<open>cv2.cvtColor\<close>, which is not code of this repository.\<close>

definition ConvertColor ::
  "(color_code \<Rightarrow> array3 \<Rightarrow> array3) \<Rightarrow> string \<Rightarrow> string \<Rightarrow> triple \<Rightarrow> error + triple" where
  "ConvertColor cvtColor current transform t =
     (case t of (img, boxes, labels) \<Rightarrow>
        if current = ''BGR'' \<and> transform = ''HSV'' then
          Inr (cvtColor COLOR_BGR2HSV img, boxes, labels)
        else if current = ''HSV'' \<and> transform = ''BGR'' then
          Inr (cvtColor COLOR_HSV2BGR img, boxes, labels)
        else Inl NotImplementedError)"

definition RandomContrast :: "nat \<Rightarrow> real \<Rightarrow> triple \<Rightarrow> error + triple" where
  "RandomContrast coin alpha t =
     (case t of (img, boxes, labels) \<Rightarrow>
        if coin \<noteq> 0 then Inr (map_cells (\<lambda>x. clip_0_255 (x * alpha)) img, boxes, labels)
        else Inr (img, boxes, labels))"

definition RandomBrightness :: "nat \<Rightarrow> real \<Rightarrow> triple \<Rightarrow> error + triple" where
  "RandomBrightness coin delta t =
     (case t of (img, boxes, labels) \<Rightarrow>
        if coin \<noteq> 0 then Inr (map_cells (\<lambda>x. clip_0_255 (x + delta)) img, boxes, labels)
        else Inr (img, boxes, labels))"

section \<open>Geometric transforms\<close>

subsection \<open>The random source of the croppers\<close>

text \<open>One pass of the \<^verbatim>\<open>for _ in range(50)\<close> loop draws \<open>w\<close>, \<open>h\<close> and, when the aspect
  ratio passes, \<open>left\<close> and \<open>top\<close>. One pass of the \<^verbatim>\<open>while True\<close> loop draws the index
  that \<^verbatim>\<open>random.choice(self.sample_options)\<close> picks and then runs the trials. The
  random source is a finite list of such rounds: the function returns \<open>None\<close> when the
  list ends before the source returns or raises.\<close>

record trial_draw =
  d_w :: real
  d_h :: real
  d_left :: real
  d_top :: real

record round_draw =
  d_choice :: nat
  d_trials :: "trial_draw list"

datatype 'a trial = Continue | Return 'a | Raise error

text \<open>\<^verbatim>\<open>for _ in range(n)\<close> over the draws: \<open>Some Continue\<close> when all \<open>n\<close> passes ended
  in \<^verbatim>\<open>continue\<close>, \<open>None\<close> when the draws ran out first.\<close>

fun trials :: "(trial_draw \<Rightarrow> 'a trial) \<Rightarrow> nat \<Rightarrow> trial_draw list \<Rightarrow> 'a trial option" where
  "trials body 0 ds = Some Continue"
| "trials body (Suc n) [] = None"
| "trials body (Suc n) (d # ds) =
     (case body d of Continue \<Rightarrow> trials body n ds | Return r \<Rightarrow> Some (Return r)
      | Raise e \<Rightarrow> Some (Raise e))"

type_synonym crop_mode = "real option \<times> real option"

definition bound_lo :: "real option \<Rightarrow> npfloat" where
  "bound_lo m = (case m of None \<Rightarrow> NInf | Some x \<Rightarrow> Fin x)"

definition bound_hi :: "real option \<Rightarrow> npfloat" where
  "bound_hi m = (case m of None \<Rightarrow> PInf | Some x \<Rightarrow> Fin x)"

definition rect_of :: "trial_draw \<Rightarrow> int list" where
  "rect_of d =
     [py_int (d_left d), py_int (d_top d), py_int (d_left d + d_w d), py_int (d_top d + d_h d)]"

text \<open>The number of indices that \<^verbatim>\<open>a:b\<close> selects on an axis of length \<open>n\<close>.\<close>

definition slice_len :: "int \<Rightarrow> int \<Rightarrow> nat \<Rightarrow> nat" where
  "slice_len a b n = nat (adjust_pos b n) - nat (adjust_pos a n)"

text \<open>\<^verbatim>\<open>image[rect[1]:rect[3], rect[0]:rect[2], :]\<close>.\<close>

definition crop_image :: "int list \<Rightarrow> array3 \<Rightarrow> array3" where
  "crop_image rect img =
     \<lparr>dim0 = slice_len (rect ! 1) (rect ! 3) (dim0 img),
      dim1 = slice_len (rect ! 0) (rect ! 2) (dim1 img),
      dim2 = dim2 img,
      cells = map (py_slice (rect ! 0) (rect ! 2)) (py_slice (rect ! 1) (rect ! 3) (cells img))\<rparr>"

text \<open>\<^verbatim>\<open>a[m]\<close> for a boolean array \<open>m\<close> as long as \<open>a\<close>.\<close>

definition select :: "bool list \<Rightarrow> 'a list \<Rightarrow> 'a list" where
  "select m xs = map snd (filter fst (zip m xs))"

subsection \<open>RandomSampleCrop\<close>

definition crop_sample_options :: "crop_mode option list" where
  "crop_sample_options = [None, Some (Some 0.9, None)]"

text \<open>The TextBoxes test of one box \<open>[x1, y1, x2, y2]\<close> against the rectangle.\<close>

definition crop_mask_row :: "int list \<Rightarrow> real list \<Rightarrow> bool" where
  "crop_mask_row rect r =
     (let m1 = (real_of_int (rect ! 0) < r ! 2 \<and> real_of_int (rect ! 1) < r ! 3);
          m2 = (real_of_int (rect ! 2) > r ! 0 \<and> real_of_int (rect ! 3) > r ! 1)
      in m1 \<and> m2)"

text \<open>A kept box is clipped to the rectangle and moved to the crop's origin.\<close>

definition crop_adjust_row :: "int list \<Rightarrow> real list \<Rightarrow> real list" where
  "crop_adjust_row rect r =
     [max (r ! 0) (real_of_int (rect ! 0)) - real_of_int (rect ! 0),
      max (r ! 1) (real_of_int (rect ! 1)) - real_of_int (rect ! 1),
      min (r ! 2) (real_of_int (rect ! 2)) - real_of_int (rect ! 0),
      min (r ! 3) (real_of_int (rect ! 3)) - real_of_int (rect ! 1)]"

text \<open>One pass of the trial loop of \<^verbatim>\<open>RandomSampleCrop.__call__\<close>.\<close>

definition crop_trial :: "crop_mode \<Rightarrow> triple \<Rightarrow> trial_draw \<Rightarrow> triple trial" where
  "crop_trial mode t d =
     (case t of (img, boxes, labels) \<Rightarrow>
        if d_w d = 0 then Raise ZeroDivisionError
        else if d_h d / d_w d < 0.5 \<or> d_h d / d_w d > 2 then Continue
        else
          (let rect = rect_of d in
           case boxes of
             None \<Rightarrow> Raise TypeError
           | Some b \<Rightarrow>
               (case jaccard_numpy b rect of
                  Inl e \<Rightarrow> Raise e
                | Inr overlap \<Rightarrow>
                    if overlap = [] then Raise ValueError
                    else if np_lt (np_min overlap) (bound_lo (fst mode)) \<or>
                            np_lt (bound_hi (snd mode)) (np_max overlap) then Continue
                    else
                      (let msk = map (crop_mask_row rect) (rows b) in
                       if \<not> list_ex (\<lambda>x. x) msk then Continue
                       else
                         (case labels of
                            None \<Rightarrow> Raise TypeError
                          | Some l \<Rightarrow>
                              if length l \<noteq> length msk then Raise IndexError
                              else
                                Return (crop_image rect img,
                                        Some (b\<lparr>rows := map (crop_adjust_row rect)
                                                          (select msk (rows b))\<rparr>),
                                        Some (select msk l)))))))"

fun RandomSampleCrop :: "round_draw list \<Rightarrow> triple \<Rightarrow> (error + triple) option" where
  "RandomSampleCrop [] t = None"
| "RandomSampleCrop (rd # rds) t =
     (if length crop_sample_options \<le> d_choice rd then None
      else
        (case crop_sample_options ! d_choice rd of
           None \<Rightarrow> Some (Inr t)
         | Some mode \<Rightarrow>
             (case trials (crop_trial mode t) 50 (d_trials rd) of
                None \<Rightarrow> None
              | Some Continue \<Rightarrow> RandomSampleCrop rds t
              | Some (Return r) \<Rightarrow> Some (Inr r)
              | Some (Raise e) \<Rightarrow> Some (Inl e))))"

subsection \<open>RandomSampleCropPoly\<close>

definition poly_sample_options :: "crop_mode option list" where
  "poly_sample_options =
     [None, Some (Some 1, None), Some (Some 3, None), Some (Some 5, None),
      Some (Some 7, None), Some (Some 9, None)]"

text \<open>Python's \<^verbatim>\<open>min\<close> and \<^verbatim>\<open>max\<close> raise on an empty sequence.\<close>

definition py_min :: "real list \<Rightarrow> error + real" where
  "py_min xs = (case xs of [] \<Rightarrow> Inl ValueError | x # ys \<Rightarrow> Inr (foldl min x ys))"

definition py_max :: "real list \<Rightarrow> error + real" where
  "py_max xs = (case xs of [] \<Rightarrow> Inl ValueError | x # ys \<Rightarrow> Inr (foldl max x ys))"

text \<open>The bounding rectangle of one polygon row: the minimum and maximum over
  \<^verbatim>\<open>boxes[i, ::2]\<close> and \<^verbatim>\<open>boxes[i, 1::2]\<close>.\<close>

definition bounding_row :: "real list \<Rightarrow> error + real list" where
  "bounding_row r =
     (let xs = map (\<lambda>j. r ! j) (slice_indices None None 2 (length r));
          ys = map (\<lambda>j. r ! j) (slice_indices (Some 1) None 2 (length r))
      in case py_min xs of Inl e \<Rightarrow> Inl e | Inr x1 \<Rightarrow>
         (case py_min ys of Inl e \<Rightarrow> Inl e | Inr y1 \<Rightarrow>
         (case py_max xs of Inl e \<Rightarrow> Inl e | Inr x2 \<Rightarrow>
         (case py_max ys of Inl e \<Rightarrow> Inl e | Inr y2 \<Rightarrow> Inr [x1, y1, x2, y2]))))"

fun bounding_rows :: "real list list \<Rightarrow> error + real list list" where
  "bounding_rows [] = Inr []"
| "bounding_rows (r # rs) =
     (case bounding_row r of
        Inl e \<Rightarrow> Inl e
      | Inr br \<Rightarrow> (case bounding_rows rs of Inl e \<Rightarrow> Inl e | Inr brs \<Rightarrow> Inr (br # brs)))"

text \<open>\<^verbatim>\<open>current_boxes[:, :2*num_pt] -= rect[:2].tolist() * num_pt\<close> and, in
  \<^verbatim>\<open>Expand\<close>, the same with \<^verbatim>\<open>+=\<close>: the offset pair is tiled over the first
  \<open>2 * (ncols div 2)\<close> columns, a last odd column is left as it is.\<close>

definition shift_pairs :: "(real \<Rightarrow> real \<Rightarrow> real) \<Rightarrow> real list \<Rightarrow> array2 \<Rightarrow> array2" where
  "shift_pairs f off a =
     (let num_pt = ncols a div 2
      in a\<lparr>rows := map (\<lambda>r. map2 f (take (2 * num_pt) r) (tile off num_pt) @ drop (2 * num_pt) r)
                      (rows a)\<rparr>)"

text \<open>One pass of the trial loop of \<^verbatim>\<open>RandomSampleCropPoly.__call__\<close>; \<open>boxes_rect\<close>
  holds the bounding rectangles, one row of four numbers per polygon.\<close>

definition poly_trial ::
  "crop_mode \<Rightarrow> array3 \<Rightarrow> array2 \<Rightarrow> int list option \<Rightarrow> array2 \<Rightarrow> trial_draw \<Rightarrow> triple trial" where
  "poly_trial mode img b labels boxes_rect d =
     (if d_w d = 0 then Raise ZeroDivisionError
      else if d_h d / d_w d < 0.5 \<or> d_h d / d_w d > 2 then Continue
      else
        (let rect = rect_of d in
         case modified_jaccard_numpy boxes_rect rect of
           Inl e \<Rightarrow> Raise e
         | Inr overlap \<Rightarrow>
             (let cnt = Fin (real (length (filter (\<lambda>v. np_lt (Fin 0.9) v) overlap))) in
              if np_le cnt (bound_lo (fst mode)) \<or> np_le (bound_hi (snd mode)) cnt then Continue
              else
                Return (crop_image rect img,
                        Some (shift_pairs (-) (map real_of_int (take 2 rect)) b),
                        labels))))"

fun RandomSampleCropPoly :: "round_draw list \<Rightarrow> triple \<Rightarrow> (error + triple) option" where
  "RandomSampleCropPoly [] t = None"
| "RandomSampleCropPoly (rd # rds) t =
     (case t of (img, boxes, labels) \<Rightarrow>
        if length poly_sample_options \<le> d_choice rd then None
        else
          (case boxes of
             None \<Rightarrow> Some (Inl TypeError)
           | Some b \<Rightarrow>
               (case bounding_rows (rows b) of
                  Inl e \<Rightarrow> Some (Inl e)
                | Inr brs \<Rightarrow>
                    (case poly_sample_options ! d_choice rd of
                       None \<Rightarrow> Some (Inr (img, boxes, labels))
                     | Some mode \<Rightarrow>
                         if brs = [] then Some (Inr (img, boxes, labels))
                         else
                           (case trials (poly_trial mode img b labels \<lparr>ncols = 4, rows = brs\<rparr>)
                                   50 (d_trials rd) of
                              None \<Rightarrow> None
                            | Some Continue \<Rightarrow> RandomSampleCropPoly rds t
                            | Some (Return r) \<Rightarrow> Some (Inr r)
                            | Some (Raise e) \<Rightarrow> Some (Inl e))))))"

subsection \<open>Expand\<close>

text \<open>\<^verbatim>\<open>canvas[t:b, l:r] = src\<close>: the source is broadcast over the selected rows and
  columns, and a shape that does not broadcast raises.\<close>

definition assign_region :: "int \<Rightarrow> int \<Rightarrow> int \<Rightarrow> int \<Rightarrow> array3 \<Rightarrow> array3 \<Rightarrow> error + array3" where
  "assign_region t b l r src canvas =
     (let t' = nat (adjust_pos t (dim0 canvas)); rh = slice_len t b (dim0 canvas);
          l' = nat (adjust_pos l (dim1 canvas)); rw = slice_len l r (dim1 canvas)
      in if dim2 src \<noteq> dim2 canvas \<and> dim2 src \<noteq> 1 then Inl ValueError
         else
           (case bcast rh (cells src) of
              None \<Rightarrow> Inl ValueError
            | Some src_rows \<Rightarrow>
                if dim1 src \<noteq> rw \<and> dim1 src \<noteq> 1 then Inl ValueError
                else
                  Inr (canvas\<lparr>cells :=
                         take t' (cells canvas) @
                         map2 (\<lambda>crow srow.
                                 take l' crow @
                                 map (\<lambda>px. if length px = dim2 canvas then px
                                            else replicate (dim2 canvas) (hd px))
                                   (if length srow = rw then srow else replicate rw (hd srow)) @
                                 drop (l' + rw) crow)
                           (take rh (drop t' (cells canvas))) src_rows @
                         drop (t' + rh) (cells canvas)\<rparr>)))"

text \<open>\<open>coin\<close> is \<^verbatim>\<open>random.randint(2)\<close>; \<open>ratio\<close>, \<open>left\<close> and \<open>top'\<close> are the three
  uniform draws (\<^verbatim>\<open>left\<close> and \<^verbatim>\<open>top\<close> of the source), all floats; the products
  \<^verbatim>\<open>height*ratio\<close>, \<^verbatim>\<open>width*ratio\<close> and the sums \<^verbatim>\<open>top + height\<close>,
  \<^verbatim>\<open>left + width\<close> are float operations. \<^verbatim>\<open>np.zeros\<close> refuses a negative dimension,
  the fill with \<^verbatim>\<open>self.mean\<close> broadcasts the mean over the channel axis, and the
  in-place \<^verbatim>\<open>+=\<close> on the boxes rounds every sum.\<close>

definition Expand :: "real list \<Rightarrow> nat \<Rightarrow> real \<Rightarrow> real \<Rightarrow> real \<Rightarrow> triple \<Rightarrow> error + triple" where
  "Expand mean coin ratio left top' t =
     (case t of (img, boxes, labels) \<Rightarrow>
        if coin \<noteq> 0 then Inr (img, boxes, labels)
        else
          (let height = dim0 img; width = dim1 img; depth = dim2 img;
               eh = py_int (fl64 (real height * ratio)); ew = py_int (fl64 (real width * ratio))
           in if eh < 0 \<or> ew < 0 then Inl ValueError
              else
                (case bcast depth mean of
                   None \<Rightarrow> Inl ValueError
                 | Some fill \<Rightarrow>
                     (let expand_image =
                            \<lparr>dim0 = nat eh, dim1 = nat ew, dim2 = depth,
                             cells = replicate (nat eh) (replicate (nat ew) fill)\<rparr>
                      in case assign_region (py_int top') (py_int (fl64 (top' + real height)))
                                (py_int left) (py_int (fl64 (left + real width))) img expand_image of
                           Inl e \<Rightarrow> Inl e
                         | Inr img' \<Rightarrow>
                             (case boxes of
                                None \<Rightarrow> Inl AttributeError
                              | Some b \<Rightarrow>
                                  Inr (img',
                                       Some (shift_pairs (\<lambda>x off. fl64 (x + off))
                                               [real_of_int (py_int left), real_of_int (py_int top')] b),
                                       labels))))))"

subsection \<open>RandomMirror\<close>

text \<open>\<^verbatim>\<open>image[:, ::-1]\<close>: every row of pixels reversed.\<close>

definition flip_horizontal :: "array3 \<Rightarrow> array3" where
  "flip_horizontal im = im\<lparr>cells := map rev (cells im)\<rparr>"

text \<open>\<open>coin\<close> is \<^verbatim>\<open>random.randint(2)\<close>. With absent boxes \<^verbatim>\<open>boxes.copy()\<close> raises.\<close>

definition RandomMirror :: "nat \<Rightarrow> triple \<Rightarrow> error + triple" where
  "RandomMirror coin t =
     (case t of (img, boxes, classes) \<Rightarrow>
        if coin \<noteq> 0 then
          (case boxes of
             None \<Rightarrow> Inl AttributeError
           | Some b \<Rightarrow>
               (case assign_cols (slice_indices (Some 0) None 2 (ncols b))
                       (rsub_scalar (real (dim1 img))
                          (take_cols (slice_indices (Some 2) None (- 2) (ncols b)) b)) b of
                  Inl e \<Rightarrow> Inl e
                | Inr b' \<Rightarrow> Inr (flip_horizontal img, Some b', classes)))
        else Inr (img, boxes, classes))"

subsection \<open>Rotate\<close>

text \<open>\<open>M\<close> is the 2x3 matrix of \<^verbatim>\<open>cv2.getRotationMatrix2D\<close> for the drawn angle and
  \<open>warp\<close> stands for \<^verbatim>\<open>cv2.warpAffine\<close> with that matrix, neither of them code of
  this repository. \<open>pick\<close> is \<^verbatim>\<open>random.randint(self.rotate_prob)\<close>. The inner loop
  reads four coordinate pairs of every row, and \<^verbatim>\<open>M.dot\<close> refuses a shorter slice.\<close>

definition rotate_point :: "real list list \<Rightarrow> real \<Rightarrow> real \<Rightarrow> real list" where
  "rotate_point M x y =
     [M ! 0 ! 0 * x + M ! 0 ! 1 * y + M ! 0 ! 2, M ! 1 ! 0 * x + M ! 1 ! 1 * y + M ! 1 ! 2]"

definition rotate_row :: "real list list \<Rightarrow> real list \<Rightarrow> real list" where
  "rotate_row M r =
     concat (map (\<lambda>l. rotate_point M (r ! (2 * l)) (r ! (2 * l + 1))) [0..<4]) @ drop 8 r"

definition Rotate ::
  "(array3 \<Rightarrow> array3) \<Rightarrow> real list list \<Rightarrow> nat \<Rightarrow> triple \<Rightarrow> error + triple" where
  "Rotate warp M pick t =
     (case t of (img, boxes, labels) \<Rightarrow>
        if pick = 0 then
          (case boxes of
             None \<Rightarrow> Inl TypeError
           | Some b \<Rightarrow>
               if rows b \<noteq> [] \<and> ncols b < 8 then Inl ValueError
               else Inr (warp img, Some (b\<lparr>rows := map (rotate_row M) (rows b)\<rparr>), labels))
        else Inr (img, boxes, labels))"

section \<open>PhotometricDistort and the presets\<close>

record photo_draws =
  brightness_coin :: nat
  brightness_delta :: real
  order_coin :: nat
  contrast_coin :: nat
  contrast_alpha :: real
  hue_coin :: nat
  hue_delta :: real

text \<open>The list \<^verbatim>\<open>self.pd\<close>. Only one of its two \<^verbatim>\<open>RandomContrast\<close> entries runs in a
  call, so both read the same pair of draws.\<close>

definition pd :: "(color_code \<Rightarrow> array3 \<Rightarrow> array3) \<Rightarrow> photo_draws \<Rightarrow> (triple \<Rightarrow> error + triple) list" where
  "pd cvtColor dr =
     [RandomContrast (contrast_coin dr) (contrast_alpha dr),
      ConvertColor cvtColor ''BGR'' ''HSV'',
      RandomHue (hue_coin dr) (hue_delta dr),
      ConvertColor cvtColor ''HSV'' ''BGR'',
      RandomContrast (contrast_coin dr) (contrast_alpha dr)]"

definition PhotometricDistort ::
  "(color_code \<Rightarrow> array3 \<Rightarrow> array3) \<Rightarrow> photo_draws \<Rightarrow> triple \<Rightarrow> error + triple" where
  "PhotometricDistort cvtColor dr t =
     (case RandomBrightness (brightness_coin dr) (brightness_delta dr) t of
        Inl e \<Rightarrow> Inl e
      | Inr t1 \<Rightarrow>
          (let distort = (if order_coin dr \<noteq> 0 then Compose (butlast (pd cvtColor dr))
                          else Compose (tl (pd cvtColor dr)))
           in case distort t1 of
                Inl e \<Rightarrow> Inl e
              | Inr (im, boxes, labels) \<Rightarrow> Inr (map_cells (np_clip 0 255) im, boxes, labels)))"

definition default_mean :: "real list" where
  "default_mean = [0.485, 0.456, 0.406]"

definition default_var :: "real list" where
  "default_var = [0.229, 0.224, 0.225]"

definition Augmentation_traininig ::
  "(color_code \<Rightarrow> array3 \<Rightarrow> array3) \<Rightarrow> (array3 \<Rightarrow> nat \<Rightarrow> nat \<Rightarrow> array3) \<Rightarrow> nat \<Rightarrow>
   photo_draws \<Rightarrow> round_draw list \<Rightarrow> triple \<Rightarrow> (error + triple) option" where
  "Augmentation_traininig cvtColor cv_resize sz dr rds t =
     (case Compose [ConvertFromInts, PhotometricDistort cvtColor dr] t of
        Inl e \<Rightarrow> Some (Inl e)
      | Inr t1 \<Rightarrow>
          (case RandomSampleCropPoly rds t1 of
             None \<Rightarrow> None
           | Some (Inl e) \<Rightarrow> Some (Inl e)
           | Some (Inr t2) \<Rightarrow>
               Some (Compose [Resize cv_resize sz, Normalize default_mean default_var, ToTensor] t2)))"

definition Augmentation_inference ::
  "(array3 \<Rightarrow> nat \<Rightarrow> nat \<Rightarrow> array3) \<Rightarrow> nat \<Rightarrow> triple \<Rightarrow> error + triple" where
  "Augmentation_inference cv_resize sz t =
     Compose [ConvertFromInts, Resize cv_resize sz, Normalize default_mean default_var, ToTensor] t"

section \<open>Predicates used to state the properties\<close>

definition all_cells :: "(real \<Rightarrow> bool) \<Rightarrow> array3 \<Rightarrow> bool" where
  "all_cells P im = list_all (list_all (list_all P)) (cells im)"


text \<open>A transform keeps the pairing of rows and labels when, on present geometry and
  labels, it returns the labels as they are and a geometry whose \<open>i\<close>-th row is made
  from the \<open>i\<close>-th input row. The classical cropper filters: it returns the rows and
  the labels selected by one and the same boolean mask.\<close>

definition preserves_pairing :: "(triple \<Rightarrow> error + triple) \<Rightarrow> bool" where
  "preserves_pairing f =
     (\<forall>img b l t'. f (img, Some b, Some l) = Inr t' \<longrightarrow>
        (\<exists>img' b' g. t' = (img', Some b', Some l) \<and>
                      length (rows b') = length (rows b) \<and> rows b' = map g (rows b)))"

definition filters_pairing :: "array2 \<Rightarrow> int list \<Rightarrow> triple \<Rightarrow> bool" where
  "filters_pairing b l t' =
     (\<exists>img' b' l' msk g.
        t' = (img', Some b', Some l') \<and> length msk = length (rows b) \<and>
        rows b' = map g (select msk (rows b)) \<and> l' = select msk l \<and>
        length (rows b') = length l')"

text \<open>The inputs of the worked crop example.\<close>

definition example_image :: array3 where
  "example_image = \<lparr>dim0 = 60, dim1 = 60, dim2 = 3, cells = replicate 60 (replicate 60 [0, 0, 0])\<rparr>"

definition example_polygons :: array2 where
  "example_polygons =
     \<lparr>ncols = 8, rows = [[10, 10, 50, 10, 50, 50, 10, 50],
                         [10, 10, 20, 10, 20, 20, 10, 20],
                         [25, 25, 35, 25, 35, 35, 25, 35]]\<rparr>"

definition example_draw :: trial_draw where
  "example_draw = \<lparr>d_w = 40, d_h = 40, d_left = 5, d_top = 5\<rparr>"

text \<open>The inputs of a classical crop that drops a box.\<close>

definition example_boxes :: array2 where
  "example_boxes = \<lparr>ncols = 4, rows = [[0, 0, 100, 100], [300, 300, 200, 400]]\<rparr>"

definition example_image100 :: array3 where
  "example_image100 =
     \<lparr>dim0 = 100, dim1 = 100, dim2 = 3, cells = replicate 100 (replicate 100 [0, 0, 0])\<rparr>"

section \<open>Index lists of the strided slices\<close>

lemma slice_down2_4: "slice_indices (Some 2) None (- 2) 4 = [2, 0]"
  by (simp add: slice_indices_def adjust_neg_def upt_rec)

lemma slice_down2_8: "slice_indices (Some 2) None (- 2) 8 = [2, 0]"
  by (simp add: slice_indices_def adjust_neg_def upt_rec)

lemma slice_even_4: "slice_indices (Some 0) None 2 4 = [0, 2]"
  by (simp add: slice_indices_def adjust_pos_def upt_rec)

lemma slice_even_8: "slice_indices (Some 0) None 2 8 = [0, 2, 4, 6]"
  by (simp add: slice_indices_def adjust_pos_def upt_rec)

lemma length4_cases:
  assumes "length r = 4"
  obtains x1 y1 x2 y2 where "r = [x1, y1, x2, y2]"
  using assms by (auto simp: numeral_eq_Suc length_Suc_conv)

section \<open>Evaluating the float roundings\<close>

lemma binary_exponent_unfold:
  "0 < n \<Longrightarrow> binary_exponent n x =
     (if 2 \<le> x then binary_exponent (n - 1) (x / 2) + 1
      else if x < 1 then binary_exponent (n - 1) (2 * x) - 1
      else 0)"
  by (cases n) simp_all

lemmas fl_eval =
  fl64_def fl32_def round_to_def round_half_even_def binary_exponent_unfold Let_def

lemma fl64_seven_tenths: "fl64 (7 / 10) = 6305039478318694 / 9007199254740992"
  by (simp add: fl_eval)

section \<open>RandomMirror on boxes and on polygons\<close>

lemma mirror_rows_4:
  assumes "list_all (\<lambda>r. length r = 4) rs"
  shows "map2 (\<lambda>r vr. put_at [0, 2] vr r) rs
           (map (map (\<lambda>x. fl64 (w - x))) (map (\<lambda>r. map (\<lambda>j. r ! j) [2, 0]) rs))
         = map (\<lambda>r. [fl64 (w - r ! 2), r ! 1, fl64 (w - r ! 0), r ! 3]) rs"
  using assms
proof (induction rs)
  case Nil
  then show ?case by simp
next
  case (Cons r rs)
  then obtain x1 y1 x2 y2 where "r = [x1, y1, x2, y2]"
    by (auto elim: length4_cases)
  with Cons show ?case by simp
qed

lemma RandomMirror_4:
  assumes "wf_array2 b" "ncols b = 4" "coin \<noteq> 0"
  shows "RandomMirror coin (img, Some b, classes) =
         Inr (flip_horizontal img,
              Some (b\<lparr>rows := map (\<lambda>r. [fl64 (real (dim1 img) - r ! 2), r ! 1,
                                          fl64 (real (dim1 img) - r ! 0), r ! 3]) (rows b)\<rparr>),
              classes)"
  using assms mirror_rows_4[of "rows b" "real (dim1 img)"]
  by (simp add: RandomMirror_def slice_down2_4 slice_even_4 assign_cols_def take_cols_def
      rsub_scalar_def wf_array2_def)

lemma mirror_row_twice:
  fixes w :: real
  shows "length r = 4 \<Longrightarrow>
    (\<lambda>r. [fl64 (w - r ! 2), r ! 1, fl64 (w - r ! 0), r ! 3])
      ((\<lambda>r. [fl64 (w - r ! 2), r ! 1, fl64 (w - r ! 0), r ! 3]) r) =
    [fl64 (w - fl64 (w - r ! 0)), r ! 1, fl64 (w - fl64 (w - r ! 2)), r ! 3]"
  by (erule length4_cases) simp

text \<open>
  Claim C7, as amended. On an array of 4-coordinate \<^verbatim>\<open>float64\<close> boxes, with the flip
  branch taken by both applications, one application of \<^verbatim>\<open>RandomMirror\<close> reverses every
  pixel row of the image and sends a box \<open>[x1, y1, x2, y2]\<close> to
  \<open>[width - x2, y1, width - x1, y2]\<close>, each difference rounded to \<^verbatim>\<open>float64\<close>. Two
  applications return the original image and the y-coordinates, and every x-coordinate
  \<open>x\<close> as \<open>fl64 (width - fl64 (width - x))\<close>. That is \<open>x\<close> again, and the boxes are
  the original boxes, whenever the subtraction \<open>width - x\<close> is exact for the float \<open>x\<close>
  (as it is for integer-valued coordinates).
\<close>

theorem RandomMirror_twice:
  assumes "wf_array2 b" and "ncols b = 4" and "coin1 \<noteq> 0" and "coin2 \<noteq> 0"
  shows "RandomMirror coin1 (img, Some b, classes) =
           Inr (flip_horizontal img,
                Some (b\<lparr>rows := map (\<lambda>r. [fl64 (real (dim1 img) - r ! 2), r ! 1,
                                            fl64 (real (dim1 img) - r ! 0), r ! 3]) (rows b)\<rparr>),
                classes) \<and>
         RandomMirror coin2
           (flip_horizontal img,
            Some (b\<lparr>rows := map (\<lambda>r. [fl64 (real (dim1 img) - r ! 2), r ! 1,
                                        fl64 (real (dim1 img) - r ! 0), r ! 3]) (rows b)\<rparr>),
            classes) =
           Inr (img,
                Some (b\<lparr>rows := map (\<lambda>r. [fl64 (real (dim1 img) - fl64 (real (dim1 img) - r ! 0)),
                                            r ! 1,
                                            fl64 (real (dim1 img) - fl64 (real (dim1 img) - r ! 2)),
                                            r ! 3]) (rows b)\<rparr>),
                classes) \<and>
         ((\<forall>r \<in> set (rows b).
              fl64 (r ! 0) = r ! 0 \<and> fl64 (real (dim1 img) - r ! 0) = real (dim1 img) - r ! 0 \<and>
              fl64 (r ! 2) = r ! 2 \<and> fl64 (real (dim1 img) - r ! 2) = real (dim1 img) - r ! 2) \<longrightarrow>
          RandomMirror coin2
            (flip_horizontal img,
             Some (b\<lparr>rows := map (\<lambda>r. [fl64 (real (dim1 img) - r ! 2), r ! 1,
                                         fl64 (real (dim1 img) - r ! 0), r ! 3]) (rows b)\<rparr>),
             classes) = Inr (img, Some b, classes))"
proof -
  let ?w = "real (dim1 img)"
  let ?f = "\<lambda>r. [fl64 (?w - r ! 2), r ! 1, fl64 (?w - r ! 0), r ! 3]"
  let ?g = "\<lambda>r. [fl64 (?w - fl64 (?w - r ! 0)), r ! 1, fl64 (?w - fl64 (?w - r ! 2)), r ! 3]"
  let ?b1 = "b\<lparr>rows := map ?f (rows b)\<rparr>"
  have len: "length r = 4" if "r \<in> set (rows b)" for r
    using that assms(1,2) by (simp add: wf_array2_def list_all_iff)
  have wf1: "wf_array2 ?b1" and c1: "ncols ?b1 = 4"
    using assms(1,2) by (auto simp: wf_array2_def list_all_iff)
  have "map (\<lambda>r. ?f (?f r)) (rows b) = map ?g (rows b)"
    by (rule map_cong[OF refl]) (use len mirror_row_twice in blast)
  then have twice: "map ?f (map ?f (rows b)) = map ?g (rows b)"
    by (simp add: comp_def)
  have first: "RandomMirror coin1 (img, Some b, classes) = Inr (flip_horizontal img, Some ?b1, classes)"
    by (rule RandomMirror_4[OF assms(1,2,3)])
  have second: "RandomMirror coin2 (flip_horizontal img, Some ?b1, classes) =
      Inr (img, Some (b\<lparr>rows := map ?g (rows b)\<rparr>), classes)"
    using RandomMirror_4[OF wf1 c1 assms(4), of "flip_horizontal img" classes] twice
    by (simp add: flip_horizontal_def rev_map[symmetric] comp_def)
  have exact: "map ?g (rows b) = rows b"
    if ex: "\<forall>r \<in> set (rows b).
              fl64 (r ! 0) = r ! 0 \<and> fl64 (?w - r ! 0) = ?w - r ! 0 \<and>
              fl64 (r ! 2) = r ! 2 \<and> fl64 (?w - r ! 2) = ?w - r ! 2"
  proof (rule map_idI)
    fix r assume r: "r \<in> set (rows b)"
    from len[OF r] obtain x1 y1 x2 y2 where "r = [x1, y1, x2, y2]"
      by (rule length4_cases)
    with ex r show "?g r = r" by force
  qed
  show ?thesis
    using first second exact by simp
qed

theorem RandomMirror_twice_witness:
  "wf_array2 \<lparr>ncols = 4, rows = [[0, 0, 1, 2]]\<rparr> \<and>
   RandomMirror 1 (\<lparr>dim0 = 1, dim1 = 2, dim2 = 1, cells = [[[3], [4]]]\<rparr>,
                   Some \<lparr>ncols = 4, rows = [[0, 0, 1, 2]]\<rparr>, Some [9]) =
     Inr (\<lparr>dim0 = 1, dim1 = 2, dim2 = 1, cells = [[[4], [3]]]\<rparr>,
          Some \<lparr>ncols = 4, rows = [[1, 0, 2, 2]]\<rparr>, Some [9]) \<and>
   RandomMirror 1 (\<lparr>dim0 = 1, dim1 = 2, dim2 = 1, cells = [[[4], [3]]]\<rparr>,
                   Some \<lparr>ncols = 4, rows = [[1, 0, 2, 2]]\<rparr>, Some [9]) =
     Inr (\<lparr>dim0 = 1, dim1 = 2, dim2 = 1, cells = [[[3], [4]]]\<rparr>,
          Some \<lparr>ncols = 4, rows = [[0, 0, 1, 2]]\<rparr>, Some [9])"
  using RandomMirror_twice[of "\<lparr>ncols = 4, rows = [[0, 0, 1, 2]]\<rparr>" 1 1
      "\<lparr>dim0 = 1, dim1 = 2, dim2 = 1, cells = [[[3], [4]]]\<rparr>" "Some [9]"]
  by (simp add: wf_array2_def flip_horizontal_def fl_eval)

text \<open>
  The claim as stated (two applications return the original boxes, for every box array)
  fails in float arithmetic. On an image of width 3 the box with \<open>x1\<close> the float 0.7
  comes back with \<open>x1\<close> two units in the last place higher (0.7000000000000002).
\<close>

theorem RandomMirror_twice_counterexample:
  "RandomMirror 1 (\<lparr>dim0 = 1, dim1 = 3, dim2 = 1, cells = [[[1], [2], [3]]]\<rparr>,
                   Some \<lparr>ncols = 4, rows = [[fl64 (7 / 10), 0, 2, 1]]\<rparr>, Some [9]) =
     Inr (\<lparr>dim0 = 1, dim1 = 3, dim2 = 1, cells = [[[3], [2], [1]]]\<rparr>,
          Some \<lparr>ncols = 4, rows = [[1, 0, 5179139571476070 / 2251799813685248, 1]]\<rparr>, Some [9]) \<and>
   RandomMirror 1 (\<lparr>dim0 = 1, dim1 = 3, dim2 = 1, cells = [[[3], [2], [1]]]\<rparr>,
                   Some \<lparr>ncols = 4, rows = [[1, 0, 5179139571476070 / 2251799813685248, 1]]\<rparr>,
                   Some [9]) =
     Inr (\<lparr>dim0 = 1, dim1 = 3, dim2 = 1, cells = [[[1], [2], [3]]]\<rparr>,
          Some \<lparr>ncols = 4, rows = [[6305039478318696 / 9007199254740992, 0, 2, 1]]\<rparr>, Some [9]) \<and>
   fl64 (7 / 10) = 6305039478318694 / 9007199254740992 \<and>
   6305039478318696 / 9007199254740992 \<noteq> fl64 (7 / 10)"
  unfolding fl64_seven_tenths
  by (simp add: RandomMirror_def slice_down2_4 slice_even_4 assign_cols_def take_cols_def
      rsub_scalar_def flip_horizontal_def fl_eval)

text \<open>
  Claim C10. Of the two geometry layouts, \<^verbatim>\<open>RandomMirror\<close> returns only on 4-coordinate
  boxes. On an 8-coordinate polygon array the flip branch reads the two columns
  \<open>[2, 0]\<close>, has the four columns \<open>[0, 2, 4, 6]\<close> to write, and the assignment
  raises \<^verbatim>\<open>ValueError\<close> instead of mirroring the polygons; only the branch without the
  flip returns there.
\<close>

theorem RandomMirror_polygon_fails:
  assumes "ncols b = 8" and "coin \<noteq> 0"
  shows "slice_indices (Some 2) None (- 2) (ncols b) = [2, 0] \<and>
         ncols (take_cols (slice_indices (Some 2) None (- 2) (ncols b)) b) = 2 \<and>
         slice_indices (Some 0) None 2 (ncols b) = [0, 2, 4, 6] \<and>
         RandomMirror coin (img, Some b, classes) = Inl ValueError \<and>
         RandomMirror 0 (img, Some b, classes) = Inr (img, Some b, classes) \<and>
         (\<forall>b4. wf_array2 b4 \<and> ncols b4 = 4 \<longrightarrow>
                (\<exists>r. RandomMirror coin (img, Some b4, classes) = Inr r))"
  using assms
  by (simp add: RandomMirror_def slice_down2_8 slice_even_8 slice_down2_4 slice_even_4
      assign_cols_def take_cols_def rsub_scalar_def)

theorem RandomMirror_polygon_fails_witness:
  "ncols \<lparr>ncols = 8, rows = [[10, 10, 50, 10, 50, 50, 10, 50]]\<rparr> = 8 \<and>
   RandomMirror 1 (\<lparr>dim0 = 1, dim1 = 2, dim2 = 1, cells = [[[3], [4]]]\<rparr>,
                   Some \<lparr>ncols = 8, rows = [[10, 10, 50, 10, 50, 50, 10, 50]]\<rparr>, Some [9]) =
     Inl ValueError"
  using RandomMirror_polygon_fails[of "\<lparr>ncols = 8, rows = [[10, 10, 50, 10, 50, 50, 10, 50]]\<rparr>" 1
      "\<lparr>dim0 = 1, dim1 = 2, dim2 = 1, cells = [[[3], [4]]]\<rparr>" "Some [9]"]
  by simp

section \<open>Value ranges of the photometric transforms\<close>

lemma clip_0_255_range: "0 \<le> clip_0_255 x \<and> clip_0_255 x \<le> 255"
  by (simp add: clip_0_255_def Let_def)



lemma np_clip_range: "0 \<le> np_clip 0 255 x \<and> np_clip 0 255 x \<le> 255"
  by (simp add: np_clip_def)

lemma all_cells_map:
  "(\<And>x. P (f x)) \<Longrightarrow> all_cells P (map_cells f im)"
  by (simp add: all_cells_def map_cells_def list_all_iff)






section \<open>The order of the composite distortion\<close>

text \<open>
  Claim C5. \<^verbatim>\<open>PhotometricDistort\<close> applies \<^verbatim>\<open>RandomBrightness\<close> first. When the
  order draw \<^verbatim>\<open>random.randint(2)\<close> is not zero it continues with contrast, BGR to HSV,
  hue, HSV to BGR; when the draw is zero it continues with BGR to HSV, hue, HSV to BGR,
  contrast. Each chain holds \<^verbatim>\<open>RandomContrast\<close> once. The returned image is clipped:
  every value lies in \<open>[0, 255]\<close>. (The two values of the order draw are the two
  halves of the claim's probability 1/2.)
\<close>

theorem PhotometricDistort_chain:
  "(order_coin dr \<noteq> 0 \<longrightarrow>
      PhotometricDistort cvtColor dr t =
        (case Compose [RandomBrightness (brightness_coin dr) (brightness_delta dr),
                       RandomContrast (contrast_coin dr) (contrast_alpha dr),
                       ConvertColor cvtColor ''BGR'' ''HSV'',
                       RandomHue (hue_coin dr) (hue_delta dr),
                       ConvertColor cvtColor ''HSV'' ''BGR''] t of
           Inl e \<Rightarrow> Inl e
         | Inr (im, boxes, labels) \<Rightarrow> Inr (map_cells (np_clip 0 255) im, boxes, labels))) \<and>
   (order_coin dr = 0 \<longrightarrow>
      PhotometricDistort cvtColor dr t =
        (case Compose [RandomBrightness (brightness_coin dr) (brightness_delta dr),
                       ConvertColor cvtColor ''BGR'' ''HSV'',
                       RandomHue (hue_coin dr) (hue_delta dr),
                       ConvertColor cvtColor ''HSV'' ''BGR'',
                       RandomContrast (contrast_coin dr) (contrast_alpha dr)] t of
           Inl e \<Rightarrow> Inl e
         | Inr (im, boxes, labels) \<Rightarrow> Inr (map_cells (np_clip 0 255) im, boxes, labels))) \<and>
   (\<forall>im' g' l'. PhotometricDistort cvtColor dr t = Inr (im', g', l') \<longrightarrow>
        all_cells (\<lambda>x. 0 \<le> x \<and> x \<le> 255) im')"
proof (intro conjI impI allI)
  assume "order_coin dr \<noteq> 0"
  then show "PhotometricDistort cvtColor dr t =
        (case Compose [RandomBrightness (brightness_coin dr) (brightness_delta dr),
                       RandomContrast (contrast_coin dr) (contrast_alpha dr),
                       ConvertColor cvtColor ''BGR'' ''HSV'',
                       RandomHue (hue_coin dr) (hue_delta dr),
                       ConvertColor cvtColor ''HSV'' ''BGR''] t of
           Inl e \<Rightarrow> Inl e
         | Inr (im, boxes, labels) \<Rightarrow> Inr (map_cells (np_clip 0 255) im, boxes, labels))"
    by (simp add: PhotometricDistort_def pd_def split: sum.splits)
next
  assume "order_coin dr = 0"
  then show "PhotometricDistort cvtColor dr t =
        (case Compose [RandomBrightness (brightness_coin dr) (brightness_delta dr),
                       ConvertColor cvtColor ''BGR'' ''HSV'',
                       RandomHue (hue_coin dr) (hue_delta dr),
                       ConvertColor cvtColor ''HSV'' ''BGR'',
                       RandomContrast (contrast_coin dr) (contrast_alpha dr)] t of
           Inl e \<Rightarrow> Inl e
         | Inr (im, boxes, labels) \<Rightarrow> Inr (map_cells (np_clip 0 255) im, boxes, labels))"
    by (simp add: PhotometricDistort_def pd_def split: sum.splits)
next
  fix im' g' l'
  assume "PhotometricDistort cvtColor dr t = Inr (im', g', l')"
  then obtain im where "im' = map_cells (np_clip 0 255) im"
    by (auto simp: PhotometricDistort_def Let_def split: sum.splits if_splits)
  then show "all_cells (\<lambda>x. 0 \<le> x \<and> x \<le> 255) im'"
    using all_cells_map[of "\<lambda>x. 0 \<le> x \<and> x \<le> 255" "np_clip 0 255" im] np_clip_range by simp
qed

theorem PhotometricDistort_chain_witness:
  "PhotometricDistort (\<lambda>c im. im)
     \<lparr>brightness_coin = 1, brightness_delta = 10, order_coin = 1, contrast_coin = 1,
      contrast_alpha = 3 / 2, hue_coin = 1, hue_delta = 20\<rparr>
     (\<lparr>dim0 = 1, dim1 = 1, dim2 = 3, cells = [[[200, 100, 50]]]\<rparr>, None, None) =
     Inr (\<lparr>dim0 = 1, dim1 = 1, dim2 = 3, cells = [[[255, 165, 90]]]\<rparr>, None, None) \<and>
   PhotometricDistort (\<lambda>c im. im)
     \<lparr>brightness_coin = 1, brightness_delta = 10, order_coin = 0, contrast_coin = 1,
      contrast_alpha = 3 / 2, hue_coin = 1, hue_delta = 20\<rparr>
     (\<lparr>dim0 = 1, dim1 = 1, dim2 = 3, cells = [[[200, 100, 50]]]\<rparr>, None, None) =
     Inr (\<lparr>dim0 = 1, dim1 = 1, dim2 = 3, cells = [[[255, 165, 90]]]\<rparr>, None, None) \<and>
   all_cells (\<lambda>x. 0 \<le> x \<and> x \<le> 255) \<lparr>dim0 = 1, dim1 = 1, dim2 = 3, cells = [[[255, 165, 90]]]\<rparr>"
  using PhotometricDistort_chain[of
      "\<lparr>brightness_coin = 1, brightness_delta = 10, order_coin = 1, contrast_coin = 1,
        contrast_alpha = 3 / 2, hue_coin = 1, hue_delta = 20\<rparr>" "\<lambda>c im. im"
      "(\<lparr>dim0 = 1, dim1 = 1, dim2 = 3, cells = [[[200, 100, 50]]]\<rparr>, None, None)"]
    PhotometricDistort_chain[of
      "\<lparr>brightness_coin = 1, brightness_delta = 10, order_coin = 0, contrast_coin = 1,
        contrast_alpha = 3 / 2, hue_coin = 1, hue_delta = 20\<rparr>" "\<lambda>c im. im"
      "(\<lparr>dim0 = 1, dim1 = 1, dim2 = 3, cells = [[[200, 100, 50]]]\<rparr>, None, None)"]
  by (simp add: RandomBrightness_def RandomContrast_def ConvertColor_def RandomHue_def
      map_cells_def clip_0_255_def wrap_hue_def np_clip_def all_cells_def)

section \<open>ToTensor\<close>

text \<open>
  Claim C9. \<^verbatim>\<open>ToTensor\<close> returns the image with axes (height, width, channel)
  reordered to (channel, height, width): cell \<open>(k, i, j)\<close> of the result is cell
  \<open>(i, j, k)\<close> of the input. Geometry and labels that are present are returned with
  the same contents; with absent geometry both outputs are the placeholder \<open>None\<close>.
\<close>

theorem ToTensor_axes:
  "ToTensor (img, None, labels) = Inr (permute_2_0_1 img, None, None) \<and>
   ToTensor (img, Some b, Some l) = Inr (permute_2_0_1 img, Some b, Some l) \<and>
   dim0 (permute_2_0_1 img) = dim2 img \<and>
   dim1 (permute_2_0_1 img) = dim0 img \<and>
   dim2 (permute_2_0_1 img) = dim1 img \<and>
   wf_array3 (permute_2_0_1 img) \<and>
   (\<forall>k i j. k < dim2 img \<and> i < dim0 img \<and> j < dim1 img \<longrightarrow>
       cells (permute_2_0_1 img) ! k ! i ! j = cells img ! i ! j ! k)"
  by (simp add: ToTensor_def permute_2_0_1_def wf_array3_def list_all_iff)

theorem ToTensor_axes_witness:
  "ToTensor (\<lparr>dim0 = 1, dim1 = 2, dim2 = 3, cells = [[[1, 2, 3], [4, 5, 6]]]\<rparr>,
             Some \<lparr>ncols = 4, rows = [[1, 2, 5, 7]]\<rparr>, Some [9]) =
     Inr (\<lparr>dim0 = 3, dim1 = 1, dim2 = 2, cells = [[[1, 4]], [[2, 5]], [[3, 6]]]\<rparr>,
          Some \<lparr>ncols = 4, rows = [[1, 2, 5, 7]]\<rparr>, Some [9]) \<and>
   ToTensor (\<lparr>dim0 = 1, dim1 = 2, dim2 = 3, cells = [[[1, 2, 3], [4, 5, 6]]]\<rparr>, None, Some [9]) =
     Inr (\<lparr>dim0 = 3, dim1 = 1, dim2 = 2, cells = [[[1, 4]], [[2, 5]], [[3, 6]]]\<rparr>, None, None) \<and>
   cells (permute_2_0_1 \<lparr>dim0 = 1, dim1 = 2, dim2 = 3, cells = [[[1, 2, 3], [4, 5, 6]]]\<rparr>) ! 2 ! 0 ! 1 = 6"
  using ToTensor_axes[of "\<lparr>dim0 = 1, dim1 = 2, dim2 = 3, cells = [[[1, 2, 3], [4, 5, 6]]]\<rparr>"
      "Some [9]" "\<lparr>ncols = 4, rows = [[1, 2, 5, 7]]\<rparr>" "[9]"]
  by (simp add: permute_2_0_1_def upt_rec)

section \<open>Resize\<close>

lemma tile_pair_4: "tile [a, b] 4 = [a, b, a, b, a, b, a, b]"
  by (simp add: tile_def numeral_eq_Suc)

lemma nth_alternating_8:
  "j < 8 \<Longrightarrow> [a, b, a, b, a, b, a, b] ! j = (if even j then a else b)"
proof -
  assume "j < 8"
  then consider "j = 0" | "j = 1" | "j = 2" | "j = 3" | "j = 4" | "j = 5" | "j = 6" | "j = 7"
    by linarith
  then show ?thesis by cases simp_all
qed

text \<open>
  Claim C4, as amended. For an image of positive height \<open>h\<close> and width \<open>w\<close> and an
  array of 8-coordinate \<^verbatim>\<open>float64\<close> polygons, \<^verbatim>\<open>Resize(size)\<close> returns the image that
  \<^verbatim>\<open>cv2.resize\<close> produces for the target \<open>(size, size)\<close>, and returns every
  x-coordinate of every row multiplied by the \<^verbatim>\<open>float32\<close> value of \<open>size / w\<close> and every
  y-coordinate multiplied by the \<^verbatim>\<open>float32\<close> value of \<open>size / h\<close>, each product rounded
  to \<^verbatim>\<open>float64\<close>; labels are returned as they are. The scale pair is tiled four times,
  whatever the geometry: on 4-coordinate boxes the product does not broadcast and
  \<^verbatim>\<open>Resize\<close> raises \<^verbatim>\<open>ValueError\<close>. Without geometry the image alone is resized.
\<close>

theorem Resize_polygons:
  assumes "wf_array2 b" and "ncols b = 8" and "0 < dim0 img" and "0 < dim1 img"
  shows "Resize cv_resize sz (img, Some b, labels) =
           Inr (cv_resize img sz sz,
                Some (b\<lparr>rows :=
                        map (\<lambda>r. map2 (\<lambda>x s. fl64 (x * s)) r
                                  (tile [fl32 (fl64 (real sz / real (dim1 img))),
                                         fl32 (fl64 (real sz / real (dim0 img)))] 4))
                          (rows b)\<rparr>),
                labels) \<and>
         (\<forall>i j. i < length (rows b) \<and> j < 8 \<longrightarrow>
            map (\<lambda>r. map2 (\<lambda>x s. fl64 (x * s)) r
                      (tile [fl32 (fl64 (real sz / real (dim1 img))),
                             fl32 (fl64 (real sz / real (dim0 img)))] 4))
              (rows b) ! i ! j =
              fl64 (rows b ! i ! j *
                    (if even j then fl32 (fl64 (real sz / real (dim1 img)))
                     else fl32 (fl64 (real sz / real (dim0 img)))))) \<and>
         (\<forall>b4. ncols b4 = 4 \<longrightarrow>
            Resize cv_resize sz (img, Some b4, labels) = Inl ValueError) \<and>
         Resize cv_resize sz (img, None, labels) = Inr (cv_resize img sz sz, None, labels)"
proof -
  let ?sw = "fl32 (fl64 (real sz / real (dim1 img)))"
  let ?sh = "fl32 (fl64 (real sz / real (dim0 img)))"
  have run: "Resize cv_resize sz (img, Some b, labels) =
      Inr (cv_resize img sz sz,
           Some (b\<lparr>rows := map (\<lambda>r. map2 (\<lambda>x s. fl64 (x * s)) r (tile [?sw, ?sh] 4)) (rows b)\<rparr>),
           labels)"
    using assms(2,3,4) by (simp add: Resize_def Let_def mul_bcast_def tile_pair_4)
  have cell: "map (\<lambda>r. map2 (\<lambda>x s. fl64 (x * s)) r (tile [?sw, ?sh] 4)) (rows b) ! i ! j =
      fl64 (rows b ! i ! j * (if even j then ?sw else ?sh))"
    if "i < length (rows b)" "j < 8" for i j
  proof -
    from that(1) assms(1,2) have len: "length (rows b ! i) = 8"
      by (simp add: wf_array2_def list_all_length)
    with that show ?thesis
      using nth_alternating_8[OF that(2), of ?sw ?sh] by (simp add: tile_pair_4)
  qed
  have four: "Resize cv_resize sz (img, Some b4, labels) = Inl ValueError" if "ncols b4 = 4" for b4
    using that assms(3,4) by (simp add: Resize_def Let_def mul_bcast_def tile_pair_4)
  have none: "Resize cv_resize sz (img, None, labels) = Inr (cv_resize img sz sz, None, labels)"
    by (simp add: Resize_def Let_def)
  show ?thesis
    using run cell four none by blast
qed

text \<open>
  The claim as stated fails on 4-coordinate boxes (one box on a 100 x 200 image); and
  the factor is not \<open>size / w\<close>: for size 300 and width 7 the x-coordinate 7 becomes
  300.000003814697265625, the \<^verbatim>\<open>float32\<close> value of 300 / 7 times 7.
\<close>

theorem Resize_polygons_counterexample:
  "Resize (\<lambda>im h w. \<lparr>dim0 = h, dim1 = w, dim2 = dim2 im,
                        cells = replicate h (replicate w (replicate (dim2 im) 0))\<rparr>) 300
     (\<lparr>dim0 = 100, dim1 = 200, dim2 = 3, cells = replicate 100 (replicate 200 [0, 0, 0])\<rparr>,
      Some \<lparr>ncols = 4, rows = [[10, 20, 30, 40]]\<rparr>, Some [1]) = Inl ValueError \<and>
   Resize (\<lambda>im h w. \<lparr>dim0 = h, dim1 = w, dim2 = dim2 im,
                        cells = replicate h (replicate w (replicate (dim2 im) 0))\<rparr>) 300
     (\<lparr>dim0 = 100, dim1 = 7, dim2 = 3, cells = replicate 100 (replicate 7 [0, 0, 0])\<rparr>,
      Some \<lparr>ncols = 8, rows = [[7, 0, 0, 0, 0, 0, 0, 0]]\<rparr>, Some [1]) =
     Inr (\<lparr>dim0 = 300, dim1 = 300, dim2 = 3, cells = replicate 300 (replicate 300 (replicate 3 0))\<rparr>,
          Some \<lparr>ncols = 8, rows = [[78643201 / 262144, 0, 0, 0, 0, 0, 0, 0]]\<rparr>, Some [1]) \<and>
   78643201 / 262144 \<noteq> 7 * (300 / (7::real))"
  by (simp add: Resize_def Let_def mul_bcast_def tile_pair_4 fl_eval)

theorem Resize_polygons_witness:
  "wf_array2 \<lparr>ncols = 8, rows = [[10, 10, 50, 10, 50, 50, 10, 50]]\<rparr> \<and>
   Resize (\<lambda>im h w. \<lparr>dim0 = h, dim1 = w, dim2 = dim2 im,
                        cells = replicate h (replicate w (replicate (dim2 im) 0))\<rparr>) 300
     (\<lparr>dim0 = 100, dim1 = 200, dim2 = 3, cells = replicate 100 (replicate 200 [0, 0, 0])\<rparr>,
      Some \<lparr>ncols = 8, rows = [[10, 10, 50, 10, 50, 50, 10, 50]]\<rparr>, Some [1]) =
     Inr (\<lparr>dim0 = 300, dim1 = 300, dim2 = 3, cells = replicate 300 (replicate 300 (replicate 3 0))\<rparr>,
          Some \<lparr>ncols = 8, rows = [[15, 30, 75, 30, 75, 150, 15, 150]]\<rparr>, Some [1])"
  using Resize_polygons[of "\<lparr>ncols = 8, rows = [[10, 10, 50, 10, 50, 50, 10, 50]]\<rparr>"
      "\<lparr>dim0 = 100, dim1 = 200, dim2 = 3, cells = replicate 100 (replicate 200 [0, 0, 0])\<rparr>"
      "\<lambda>im h w. \<lparr>dim0 = h, dim1 = w, dim2 = dim2 im,
                   cells = replicate h (replicate w (replicate (dim2 im) 0))\<rparr>" 300 "Some [1]"]
  by (simp add: wf_array2_def tile_pair_4 fl_eval)

section \<open>The polygon cropper: identity cases\<close>

lemma slice_all2_nonempty: "0 < n \<Longrightarrow> slice_indices None None 2 n \<noteq> []"
  by (simp add: slice_indices_def)

lemma slice_odd2_nonempty: "2 \<le> n \<Longrightarrow> slice_indices (Some 1) None 2 n \<noteq> []"
  by (simp add: slice_indices_def adjust_pos_def)

lemma py_min_ok: "xs \<noteq> [] \<Longrightarrow> \<exists>v. py_min xs = Inr v"
  by (cases xs) (simp_all add: py_min_def)

lemma py_max_ok: "xs \<noteq> [] \<Longrightarrow> \<exists>v. py_max xs = Inr v"
  by (cases xs) (simp_all add: py_max_def)

lemma bounding_row_ok:
  assumes "2 \<le> length r"
  shows "\<exists>br. bounding_row r = Inr br"
proof -
  let ?xs = "map (\<lambda>j. r ! j) (slice_indices None None 2 (length r))"
  let ?ys = "map (\<lambda>j. r ! j) (slice_indices (Some 1) None 2 (length r))"
  from assms have "0 < length r" by linarith
  with assms have "?xs \<noteq> []" "?ys \<noteq> []"
    using slice_all2_nonempty[of "length r"] slice_odd2_nonempty[of "length r"] by simp_all
  then obtain x1 y1 x2 y2 where
    "py_min ?xs = Inr x1" "py_min ?ys = Inr y1" "py_max ?xs = Inr x2" "py_max ?ys = Inr y2"
    using py_min_ok py_max_ok by metis
  then show ?thesis
    by (simp add: bounding_row_def Let_def)
qed

lemma bounding_rows_ok:
  "list_all (\<lambda>r. 2 \<le> length r) rs \<Longrightarrow>
   \<exists>brs. bounding_rows rs = Inr brs \<and> length brs = length rs"
proof (induction rs)
  case Nil
  then show ?case by simp
next
  case (Cons r rs)
  then obtain br brs where "bounding_row r = Inr br" "bounding_rows rs = Inr brs"
    "length brs = length rs"
    using bounding_row_ok[of r] by auto
  then show ?case by simp
qed

text \<open>
  Where the geometry is present, with rows of at least two coordinates or with no row
  at all, the polygon cropper returns its input as soon as the drawn mode is
  \<^verbatim>\<open>None\<close> (index 0 of the options) or the object list is empty; with absent geometry
  it raises.
\<close>

lemma RandomSampleCropPoly_identity:
  assumes "d_choice rd < length poly_sample_options"
    and "wf_array2 b" and "rows b = [] \<or> 2 \<le> ncols b"
    and "d_choice rd = 0 \<or> rows b = []"
  shows "RandomSampleCropPoly (rd # rds) (img, Some b, labels) = Some (Inr (img, Some b, labels)) \<and>
         RandomSampleCropPoly (rd # rds) (img, None, labels) = Some (Inl TypeError)"
proof -
  have "list_all (\<lambda>r. 2 \<le> length r) (rows b)"
    using assms(2,3) by (auto simp: wf_array2_def list_all_iff)
  then obtain brs where brs: "bounding_rows (rows b) = Inr brs" "length brs = length (rows b)"
    using bounding_rows_ok by blast
  show ?thesis
  proof (cases "d_choice rd = 0")
    case True
    with assms(1) brs show ?thesis
      by (simp add: poly_sample_options_def)
  next
    case False
    with assms(4) have "rows b = []" by simp
    with brs have "brs = []" by simp
    with assms(1) brs show ?thesis
      by (simp split: option.splits)
  qed
qed

text \<open>
  Claim C3. The claim asks for the identity, without an error, on every input triple
  whenever the drawn mode is \<^verbatim>\<open>None\<close>. The code computes the bounding rectangles
  before it looks at the mode: on a triple without geometry (\<^verbatim>\<open>boxes=None\<close>, the
  default of the signature) \<^verbatim>\<open>len(boxes)\<close> raises \<^verbatim>\<open>TypeError\<close> although the drawn mode
  is \<^verbatim>\<open>None\<close>. The sibling \<^verbatim>\<open>RandomSampleCrop\<close> tests the mode first and returns the
  same triple unchanged.
\<close>

theorem RandomSampleCropPoly_absent_geometry:
  "RandomSampleCropPoly [\<lparr>d_choice = 0, d_trials = []\<rparr>]
     (\<lparr>dim0 = 1, dim1 = 1, dim2 = 3, cells = [[[1, 2, 3]]]\<rparr>, None, None) = Some (Inl TypeError) \<and>
   poly_sample_options ! 0 = None \<and>
   RandomSampleCrop [\<lparr>d_choice = 0, d_trials = []\<rparr>]
     (\<lparr>dim0 = 1, dim1 = 1, dim2 = 3, cells = [[[1, 2, 3]]]\<rparr>, None, None) =
     Some (Inr (\<lparr>dim0 = 1, dim1 = 1, dim2 = 3, cells = [[[1, 2, 3]]]\<rparr>, None, None))"
  by (simp add: poly_sample_options_def crop_sample_options_def)

section \<open>The polygon cropper: what a successful trial returns\<close>

lemma trials_Return:
  "trials body n ds = Some (Return r) \<Longrightarrow> \<exists>d \<in> set ds. body d = Return r"
proof (induction body n ds rule: trials.induct)
  case (3 body n d ds)
  then show ?case by (cases "body d") auto
qed simp_all

lemma trials_pos:
  "0 < n \<Longrightarrow> trials body n (d # ds) =
     (case body d of Continue \<Rightarrow> trials body (n - 1) ds | Return r \<Rightarrow> Some (Return r)
      | Raise e \<Rightarrow> Some (Raise e))"
  by (cases n) (auto split: trial.splits)

lemma trials_nil: "0 < n \<Longrightarrow> trials body n [] = None"
  by (cases n) simp_all

lemma poly_trial_Return:
  assumes "poly_trial mode img b labels boxes_rect d = Return t'"
  shows "t' = (crop_image (rect_of d) img,
               Some (shift_pairs (-) (map real_of_int (take 2 (rect_of d))) b), labels)"
proof (cases "modified_jaccard_numpy boxes_rect (rect_of d)")
  case (Inl e)
  with assms show ?thesis
    by (simp add: poly_trial_def Let_def split: if_splits)
next
  case (Inr overlap)
  with assms show ?thesis
    by (simp add: poly_trial_def Let_def split: if_splits)
qed

lemma RandomSampleCropPoly_step:
  assumes "d_choice rd < length poly_sample_options"
    and "bounding_rows (rows b) = Inr brs"
    and "poly_sample_options ! d_choice rd = Some mode"
    and "brs \<noteq> []"
  shows "RandomSampleCropPoly (rd # rds) (img, Some b, labels) =
           (case trials (poly_trial mode img b labels \<lparr>ncols = 4, rows = brs\<rparr>) 50 (d_trials rd) of
              None \<Rightarrow> None
            | Some Continue \<Rightarrow> RandomSampleCropPoly rds (img, Some b, labels)
            | Some (Return r) \<Rightarrow> Some (Inr r)
            | Some (Raise e) \<Rightarrow> Some (Inl e))"
  using assms by simp


lemma RandomSampleCropPoly_result:
  assumes "RandomSampleCropPoly rds (img, Some b, labels) = Some (Inr t')"
  shows "t' = (img, Some b, labels) \<or>
         (\<exists>rd \<in> set rds. \<exists>d \<in> set (d_trials rd).
            t' = (crop_image (rect_of d) img,
                  Some (shift_pairs (-) (map real_of_int (take 2 (rect_of d))) b), labels))"
  using assms
proof (induction rds)
  case Nil
  then show ?case by simp
next
  case (Cons rd rds)
  show ?case
  proof (cases "length poly_sample_options \<le> d_choice rd")
    case True
    with Cons.prems show ?thesis by simp
  next
    case False
    then have inrange: "d_choice rd < length poly_sample_options" by simp
    show ?thesis
    proof (cases "bounding_rows (rows b)")
      case (Inl e)
      with Cons.prems inrange show ?thesis by simp
    next
      case (Inr brs)
      show ?thesis
      proof (cases "poly_sample_options ! d_choice rd")
        case None
        with Cons.prems inrange Inr show ?thesis by simp
      next
        case (Some mode)
        show ?thesis
        proof (cases "brs = []")
          case True
          with Cons.prems inrange Inr Some show ?thesis by simp
        next
          case False
          let ?tr = "trials (poly_trial mode img b labels \<lparr>ncols = 4, rows = brs\<rparr>) 50 (d_trials rd)"
          note step = RandomSampleCropPoly_step[OF inrange Inr Some False, of rds img labels]
          show ?thesis
          proof (cases ?tr)
            case None
            with step Cons.prems show ?thesis by simp
          next
            case (Some outcome)
            note tr = this
            show ?thesis
            proof (cases outcome)
              case Continue
              with step tr Cons.prems
              have "RandomSampleCropPoly rds (img, Some b, labels) = Some (Inr t')" by simp
              from Cons.IH[OF this] show ?thesis by auto
            next
              case (Return r)
              with step tr Cons.prems have "r = t'" by simp
              with tr Return have "?tr = Some (Return t')" by simp
              from trials_Return[OF this] obtain d where "d \<in> set (d_trials rd)"
                "poly_trial mode img b labels \<lparr>ncols = 4, rows = brs\<rparr> d = Return t'"
                by auto
              then show ?thesis
                using poly_trial_Return[of mode img b labels "\<lparr>ncols = 4, rows = brs\<rparr>" d t']
                by auto
            next
              case (Raise e)
              with step tr Cons.prems show ?thesis by simp
            qed
          qed
        qed
      qed
    qed
  qed
qed


lemma slice_all2_8: "slice_indices None None 2 8 = [0, 2, 4, 6]"
  by (simp add: slice_indices_def upt_rec)

lemma slice_odd2_8: "slice_indices (Some 1) None 2 8 = [1, 3, 5, 7]"
  by (simp add: slice_indices_def adjust_pos_def upt_rec)

lemma example_rect: "rect_of example_draw = [5, 5, 45, 45]"
  by (simp add: rect_of_def example_draw_def py_int_def)

lemma example_aspect: "d_w example_draw = 40 \<and> d_h example_draw = 40"
  by (simp add: example_draw_def)

lemma bounding_row_8:
  "bounding_row [a, b, c, d, e, f, g, h] =
     Inr [foldl min a [c, e, g], foldl min b [d, f, h], foldl max a [c, e, g], foldl max b [d, f, h]]"
proof -
  have l: "length [a, b, c, d, e, f, g, h] = 8" by simp
  show ?thesis
    unfolding bounding_row_def l slice_all2_8 slice_odd2_8
    by (simp add: py_min_def py_max_def)
qed

lemma example_bounding:
  "bounding_rows (rows example_polygons) =
     Inr [[10, 10, 50, 50], [10, 10, 20, 20], [25, 25, 35, 35]]"
  by (simp add: example_polygons_def bounding_row_8)

lemma example_overlap:
  "modified_jaccard_numpy \<lparr>ncols = 4, rows = [[10, 10, 50, 50], [10, 10, 20, 20], [25, 25, 35, 35]]\<rparr>
     [5, 5, 45, 45] = Inr [Fin (1225 / 1600), Fin 1, Fin 1]"
  by (simp add: modified_jaccard_numpy_def box_shape_check_def intersect_row_def area_row_def
      np_div_def Let_def)

lemma shift_pairs_8:
  "ncols a = 8 \<Longrightarrow>
   shift_pairs f [p, q] a =
     a\<lparr>rows := map (\<lambda>r. map2 f (take 8 r) [p, q, p, q, p, q, p, q] @ drop 8 r) (rows a)\<rparr>"
  by (simp add: shift_pairs_def tile_pair_4)

lemma example_trial:
  "poly_trial (Some 1, None) example_image example_polygons (Some [1, 1, 1])
     \<lparr>ncols = 4, rows = [[10, 10, 50, 50], [10, 10, 20, 20], [25, 25, 35, 35]]\<rparr> example_draw =
   Return (\<lparr>dim0 = 40, dim1 = 40, dim2 = 3, cells = replicate 40 (replicate 40 [0, 0, 0])\<rparr>,
           Some \<lparr>ncols = 8, rows = [[5, 5, 45, 5, 45, 45, 5, 45],
                                    [5, 5, 15, 5, 15, 15, 5, 15],
                                    [20, 20, 30, 20, 30, 30, 20, 30]]\<rparr>,
           Some [1, 1, 1])"
  by (simp add: poly_trial_def example_rect example_overlap example_aspect example_image_def example_polygons_def np_le_def bound_lo_def
      bound_hi_def crop_image_def slice_len_def py_slice_def adjust_pos_def shift_pairs_8
      Let_def)


lemma bounding_rows_length:
  "bounding_rows rs = Inr brs \<Longrightarrow> length brs = length rs"
proof (induction rs arbitrary: brs)
  case Nil
  then show ?case by simp
next
  case (Cons r rs)
  then show ?case by (auto split: sum.splits)
qed

lemma poly_mode_Some:
  "0 < k \<Longrightarrow> k < length poly_sample_options \<Longrightarrow> \<exists>mode. poly_sample_options ! k = Some mode"
proof -
  assume "0 < k" "k < length poly_sample_options"
  then consider "k = 1" | "k = 2" | "k = 3" | "k = 4" | "k = 5"
    by (simp add: poly_sample_options_def) linarith
  then show ?thesis by cases (simp_all add: poly_sample_options_def)
qed

lemma single_trial_Return:
  assumes "RandomSampleCropPoly [\<lparr>d_choice = k, d_trials = [d]\<rparr>] (img, Some b, labels) = Some (Inr t')"
    and "0 < k" and "rows b \<noteq> []"
  shows "t' = (crop_image (rect_of d) img,
               Some (shift_pairs (-) (map real_of_int (take 2 (rect_of d))) b), labels)"
proof -
  let ?rd = "\<lparr>d_choice = k, d_trials = [d]\<rparr>"
  have inrange: "d_choice ?rd < length poly_sample_options"
  proof (rule ccontr)
    assume "\<not> d_choice ?rd < length poly_sample_options"
    with assms(1) show False by simp
  qed
  with assms(2) obtain mode where mode: "poly_sample_options ! d_choice ?rd = Some mode"
    using poly_mode_Some[of k] by auto
  obtain brs where brs: "bounding_rows (rows b) = Inr brs"
  proof (cases "bounding_rows (rows b)")
    case (Inl e)
    with assms(1) inrange show ?thesis by simp
  next
    case (Inr brs)
    then show ?thesis by (rule that)
  qed
  with assms(3) have ne: "brs \<noteq> []"
    using bounding_rows_length by fastforce
  let ?body = "poly_trial mode img b labels \<lparr>ncols = 4, rows = brs\<rparr>"
  note step = RandomSampleCropPoly_step[OF inrange brs mode ne, of "[]" img labels]
  have tr: "trials ?body 50 [d] =
      (case ?body d of Continue \<Rightarrow> None | Return r \<Rightarrow> Some (Return r) | Raise e \<Rightarrow> Some (Raise e))"
    by (simp add: trials_pos trials_nil split: trial.splits)
  have "?body d = Return t'"
  proof (cases "?body d")
    case Continue
    with step tr assms(1) show ?thesis by simp
  next
    case (Return r)
    with step tr assms(1) show ?thesis by simp
  next
    case (Raise e)
    with step tr assms(1) show ?thesis by simp
  qed
  then show ?thesis by (rule poly_trial_Return)
qed

text \<open>
  Claim C2, as amended. When \<^verbatim>\<open>RandomSampleCropPoly\<close> succeeds with the crop rectangle
  \<open>[5, 5, 45, 45]\<close> on geometry holding the 4-point polygon
  \<open>[10, 10, 50, 10, 50, 50, 10, 50]\<close>, it keeps every row, returns the labels as they
  are, and subtracts the crop origin (5, 5) from each coordinate pair: the polygon
  becomes \<open>[5, 5, 45, 5, 45, 45, 5, 45]\<close>. (The random source is one round with the
  single trial \<open>d\<close>, so that the success is the success of that rectangle.)
\<close>

theorem RandomSampleCropPoly_example:
  assumes "RandomSampleCropPoly [\<lparr>d_choice = k, d_trials = [d]\<rparr>] (img, Some b, labels) =
             Some (Inr (img', g', l'))"
    and "0 < k" and "rect_of d = [5, 5, 45, 45]"
    and "ncols b = 8" and "i < length (rows b)"
    and "rows b ! i = [10, 10, 50, 10, 50, 50, 10, 50]"
  shows "img' = crop_image [5, 5, 45, 45] img \<and> l' = labels \<and>
         (\<exists>b'. g' = Some b' \<and> ncols b' = 8 \<and> length (rows b') = length (rows b) \<and>
               rows b' ! i = [5, 5, 45, 5, 45, 45, 5, 45])"
proof -
  from assms(5) have "rows b \<noteq> []" by auto
  from single_trial_Return[OF assms(1,2) this] assms(3)
  have res: "img' = crop_image [5, 5, 45, 45] img" "l' = labels"
    "g' = Some (shift_pairs (-) [5, 5] b)"
    by simp_all
  have "rows (shift_pairs (-) [5, 5] b) ! i = [5, 5, 45, 5, 45, 45, 5, 45]"
    using assms(4,5,6) by (simp add: shift_pairs_8)
  moreover have "ncols (shift_pairs (-) [5, 5] b) = 8"
    "length (rows (shift_pairs (-) [5, 5] b)) = length (rows b)"
    using assms(4) by (simp_all add: shift_pairs_8)
  ultimately show ?thesis using res by simp
qed

lemma example_run:
  "RandomSampleCropPoly [\<lparr>d_choice = 1, d_trials = [example_draw]\<rparr>]
     (example_image, Some example_polygons, Some [1, 1, 1]) =
   Some (Inr (\<lparr>dim0 = 40, dim1 = 40, dim2 = 3, cells = replicate 40 (replicate 40 [0, 0, 0])\<rparr>,
              Some \<lparr>ncols = 8, rows = [[5, 5, 45, 5, 45, 45, 5, 45],
                                       [5, 5, 15, 5, 15, 15, 5, 15],
                                       [20, 20, 30, 20, 30, 30, 20, 30]]\<rparr>,
              Some [1, 1, 1]))"
proof -
  have "RandomSampleCropPoly [\<lparr>d_choice = 1, d_trials = [example_draw]\<rparr>]
          (example_image, Some example_polygons, Some [1, 1, 1]) =
        (case trials (poly_trial (Some 1, None) example_image example_polygons (Some [1, 1, 1])
                 \<lparr>ncols = 4, rows = [[10, 10, 50, 50], [10, 10, 20, 20], [25, 25, 35, 35]]\<rparr>)
               50 (d_trials \<lparr>d_choice = 1, d_trials = [example_draw]\<rparr>) of
           None \<Rightarrow> None
         | Some Continue \<Rightarrow> RandomSampleCropPoly [] (example_image, Some example_polygons, Some [1, 1, 1])
         | Some (Return r) \<Rightarrow> Some (Inr r)
         | Some (Raise e) \<Rightarrow> Some (Inl e))"
    by (rule RandomSampleCropPoly_step)
      (simp_all add: example_bounding poly_sample_options_def)
  then show ?thesis
    by (simp add: trials_pos example_trial)
qed

text \<open>
  The row the claim states, \<open>[5, 5, 45, 5, 45, 40, 5, 40]\<close>, is not what the code
  returns: 50 - 5 is 45. The run below is a 60 x 60 image with the polygon and two
  small polygons inside the rectangle (a lone polygon never passes the count test of
  any mode), mode \<open>(1, None)\<close> and the draws \<open>w = h = 40\<close>, \<open>left = top = 5\<close>.
\<close>

theorem RandomSampleCropPoly_example_counterexample:
  "RandomSampleCropPoly [\<lparr>d_choice = 1, d_trials = [example_draw]\<rparr>]
     (example_image, Some example_polygons, Some [1, 1, 1]) =
   Some (Inr (\<lparr>dim0 = 40, dim1 = 40, dim2 = 3, cells = replicate 40 (replicate 40 [0, 0, 0])\<rparr>,
              Some \<lparr>ncols = 8, rows = [[5, 5, 45, 5, 45, 45, 5, 45],
                                       [5, 5, 15, 5, 15, 15, 5, 15],
                                       [20, 20, 30, 20, 30, 30, 20, 30]]\<rparr>,
              Some [1, 1, 1])) \<and>
   rect_of example_draw = [5, 5, 45, 45] \<and>
   rows example_polygons ! 0 = [10, 10, 50, 10, 50, 50, 10, 50] \<and>
   [5, 5, 45, 5, 45, 45, 5, 45] \<noteq> [5, 5, 45, 5, 45, 40, 5, (40::real)]"
proof (intro conjI)
  show "rows example_polygons ! 0 = [10, 10, 50, 10, 50, 50, 10, 50]"
    by (simp add: example_polygons_def)
qed (rule example_run, rule example_rect, simp)

theorem RandomSampleCropPoly_example_witness:
  "RandomSampleCropPoly [\<lparr>d_choice = 1, d_trials = [example_draw]\<rparr>]
     (example_image, Some example_polygons, Some [1, 1, 1]) =
   Some (Inr (\<lparr>dim0 = 40, dim1 = 40, dim2 = 3, cells = replicate 40 (replicate 40 [0, 0, 0])\<rparr>,
              Some \<lparr>ncols = 8, rows = [[5, 5, 45, 5, 45, 45, 5, 45],
                                       [5, 5, 15, 5, 15, 15, 5, 15],
                                       [20, 20, 30, 20, 30, 30, 20, 30]]\<rparr>,
              Some [1, 1, 1])) \<and>
   rect_of example_draw = [5, 5, 45, 45] \<and> ncols example_polygons = 8 \<and>
   rows example_polygons ! 0 = [10, 10, 50, 10, 50, 50, 10, 50] \<and>
   \<lparr>dim0 = 40, dim1 = 40, dim2 = 3, cells = replicate 40 (replicate 40 [0, 0, 0])\<rparr> =
     crop_image [5, 5, 45, 45] example_image"
proof (intro conjI)
  have p: "ncols example_polygons = 8" "0 < length (rows example_polygons)"
    "rows example_polygons ! 0 = [10, 10, 50, 10, 50, 50, 10, 50]"
    by (simp_all add: example_polygons_def)
  show "ncols example_polygons = 8"
    and "rows example_polygons ! 0 = [10, 10, 50, 10, 50, 50, 10, 50]"
    by (rule p)+
  show "\<lparr>dim0 = 40, dim1 = 40, dim2 = 3, cells = replicate 40 (replicate 40 [0, 0, 0])\<rparr> =
          crop_image [5, 5, 45, 45] example_image"
    using RandomSampleCropPoly_example[OF example_run _ example_rect p] by simp
qed (rule example_run, rule example_rect)

section \<open>Expand on a 100 x 100 image\<close>

lemma canvas_height: "py_int (fl64 (100 * fl64 (6 / 5))) = 120"
  by (simp add: fl_eval py_int_def)

lemma tile_Suc: "tile v (Suc n) = v @ tile v n"
  by (simp add: tile_def)

lemma tile_pair_length: "length (tile [a, b] n) = 2 * n"
  by (induction n) (simp_all add: tile_def)

lemma tile_pair_nth: "j < 2 * n \<Longrightarrow> tile [a, b] n ! j = (if even j then a else b)"
proof (induction n arbitrary: j)
  case 0
  then show ?case by simp
next
  case (Suc n)
  show ?case
  proof (cases "j < 2")
    case True
    then consider "j = 0" | "j = 1" by linarith
    then show ?thesis by cases (simp_all add: tile_Suc)
  next
    case False
    then obtain k where k: "j = Suc (Suc k)"
      by (metis One_nat_def Suc_1 less_Suc_eq_0_disj not_less_eq old.nat.exhaust)
    with Suc.prems have "k < 2 * n" by simp
    from Suc.IH[OF this] k show ?thesis by (simp add: tile_Suc)
  qed
qed

lemma shifted_row_nth:
  assumes "length r = c" and "j < c"
  shows "(map2 f (take (2 * (c div 2)) r) (tile [a, b] (c div 2)) @ drop (2 * (c div 2)) r) ! j =
         (if j < 2 * (c div 2) then f (r ! j) (if even j then a else b) else r ! j)"
proof (cases "j < 2 * (c div 2)")
  case True
  have len: "length (map2 f (take (2 * (c div 2)) r) (tile [a, b] (c div 2))) = 2 * (c div 2)"
    using assms(1) by (simp add: tile_pair_length)
  with True assms show ?thesis
    by (simp add: nth_append tile_pair_nth tile_pair_length)
next
  case False
  have len: "length (map2 f (take (2 * (c div 2)) r) (tile [a, b] (c div 2))) = 2 * (c div 2)"
    using assms(1) by (simp add: tile_pair_length)
  from False assms(2) have "j = 2 * (c div 2)" by presburger
  with False len assms show ?thesis
    by (simp add: nth_append)
qed


lemma paste_rows:
  assumes "wf_array3 src" and "dim0 src = 100" and "dim1 src = 100" and "dim2 src = length mean"
  shows "map2 (\<lambda>crow srow.
                 take 5 crow @
                 map (\<lambda>px. if length px = length mean then px else replicate (length mean) (hd px))
                   (if length srow = 100 then srow else replicate 100 (hd srow)) @
                 drop 105 crow)
           (replicate 100 (replicate 120 mean)) (cells src) =
         map (\<lambda>srow. replicate 5 mean @ srow @ replicate 15 mean) (cells src)"
proof -
  have len: "length (cells src) = 100"
    using assms(1,2) by (simp add: wf_array3_def)
  have row: "length srow = 100 \<and> map (\<lambda>px. if length px = length mean then px
                                           else replicate (length mean) (hd px)) srow = srow"
    if "srow \<in> set (cells src)" for srow
  proof -
    from that assms(1,3,4) have "length srow = 100" and "\<forall>px \<in> set srow. length px = length mean"
      by (auto simp: wf_array3_def list_all_iff)
    then show ?thesis by (simp add: map_idI)
  qed
  have "map2 (\<lambda>crow srow.
                 take 5 crow @
                 map (\<lambda>px. if length px = length mean then px else replicate (length mean) (hd px))
                   (if length srow = 100 then srow else replicate 100 (hd srow)) @
                 drop 105 crow)
           (replicate 100 (replicate 120 mean)) (cells src) =
        map (\<lambda>srow. take 5 (replicate 120 mean) @
                 map (\<lambda>px. if length px = length mean then px else replicate (length mean) (hd px))
                   (if length srow = 100 then srow else replicate 100 (hd srow)) @
                 drop 105 (replicate 120 mean)) (cells src)"
    using len by (simp add: zip_replicate1)
  also have "\<dots> = map (\<lambda>srow. replicate 5 mean @ srow @ replicate 15 mean) (cells src)"
    by (rule map_cong[OF refl]) (simp add: row)
  finally show ?thesis .
qed

lemma assign_region_100:
  assumes "wf_array3 src" and "dim0 src = 100" and "dim1 src = 100" and "dim2 src = length mean"
  shows "assign_region 3 103 5 105 src
           \<lparr>dim0 = 120, dim1 = 120, dim2 = length mean,
            cells = replicate 120 (replicate 120 mean)\<rparr> =
         Inr \<lparr>dim0 = 120, dim1 = 120, dim2 = length mean,
              cells = replicate 3 (replicate 120 mean) @
                      map (\<lambda>srow. replicate 5 mean @ srow @ replicate 15 mean) (cells src) @
                      replicate 17 (replicate 120 mean)\<rparr>"
proof -
  have len: "length (cells src) = 100"
    using assms(1,2) by (simp add: wf_array3_def)
  show ?thesis
    using assms(2,3,4) len paste_rows[OF assms]
    by (simp add: assign_region_def Let_def adjust_pos_def slice_len_def bcast_def cong: if_cong)
qed

lemma canvas_nth:
  assumes "length cs = 100" and "\<forall>row \<in> set cs. length row = 100" and "y < 120" and "x < 120"
  shows "(replicate 3 (replicate 120 m) @
          map (\<lambda>srow. replicate 5 m @ srow @ replicate 15 m) cs @
          replicate 17 (replicate 120 m)) ! y ! x =
         (if 3 \<le> y \<and> y < 103 \<and> 5 \<le> x \<and> x < 105 then cs ! (y - 3) ! (x - 5) else m)"
proof -
  consider "y < 3" | "3 \<le> y" "y < 103" | "103 \<le> y"
    by linarith
  then show ?thesis
  proof cases
    case 1
    with assms(4) show ?thesis by (simp add: nth_append)
  next
    case 2
    then have in_cs: "y - 3 < length cs" using assms(1) by simp
    then have rl: "length (cs ! (y - 3)) = 100" using assms(2) by simp
    have "(replicate 3 (replicate 120 m) @
          map (\<lambda>srow. replicate 5 m @ srow @ replicate 15 m) cs @
          replicate 17 (replicate 120 m)) ! y =
          replicate 5 m @ cs ! (y - 3) @ replicate 15 m"
      using 2 in_cs by (simp add: nth_append)
    moreover have "(replicate 5 m @ cs ! (y - 3) @ replicate 15 m) ! x =
          (if 5 \<le> x \<and> x < 105 then cs ! (y - 3) ! (x - 5) else m)"
      using rl assms(4) by (auto simp: nth_append)
    ultimately show ?thesis using 2 by simp
  next
    case 3
    with assms(1,3,4) show ?thesis by (auto simp: nth_append)
  qed
qed


text \<open>
  Claim C8. The branch of \<^verbatim>\<open>Expand\<close> that is not the no-op (\<^verbatim>\<open>random.randint(2)\<close>
  is 0), with the ratio the float 1.2 and draws \<open>left\<close>, \<open>top\<close> whose slice bounds are
  \<open>int(left) = 5\<close>, \<open>int(left + width) = 105\<close>, \<open>int(top) = 3\<close>,
  \<open>int(top + height) = 103\<close>, on a 100 x 100 image with a mean that broadcasts over
  the channels to \<open>fill\<close>: the returned canvas is 120 x 120, holds the original image
  at rows 3..102 and columns 5..104 and the mean everywhere else, and every x-coordinate of every geometry row is
  returned increased by 5 and every y-coordinate by 3 (the \<^verbatim>\<open>float64\<close> sums of the
  in-place \<^verbatim>\<open>+=\<close>), over all coordinate pairs of the row; labels are returned as they
  are.
\<close>

theorem Expand_example:
  assumes "wf_array3 img" and "dim0 img = 100" and "dim1 img = 100"
    and "bcast (dim2 img) mean = Some fill" and "wf_array2 b"
    and "py_int left = 5" and "py_int (fl64 (left + 100)) = 105"
    and "py_int top' = 3" and "py_int (fl64 (top' + 100)) = 103"
  shows "Expand mean 0 (fl64 (6 / 5)) left top' (img, Some b, labels) =
           Inr (\<lparr>dim0 = 120, dim1 = 120, dim2 = dim2 img,
                 cells = replicate 3 (replicate 120 fill) @
                         map (\<lambda>srow. replicate 5 fill @ srow @ replicate 15 fill) (cells img) @
                         replicate 17 (replicate 120 fill)\<rparr>,
                Some (b\<lparr>rows :=
                        map (\<lambda>r. map2 (\<lambda>x off. fl64 (x + off)) (take (2 * (ncols b div 2)) r)
                                    (tile [5, 3] (ncols b div 2)) @
                                  drop (2 * (ncols b div 2)) r) (rows b)\<rparr>),
                labels) \<and>
         (\<forall>y x. y < 120 \<and> x < 120 \<longrightarrow>
            (replicate 3 (replicate 120 fill) @
             map (\<lambda>srow. replicate 5 fill @ srow @ replicate 15 fill) (cells img) @
             replicate 17 (replicate 120 fill)) ! y ! x =
            (if 3 \<le> y \<and> y < 103 \<and> 5 \<le> x \<and> x < 105 then cells img ! (y - 3) ! (x - 5)
             else fill)) \<and>
         (\<forall>i j. i < length (rows b) \<and> j < ncols b \<longrightarrow>
            map (\<lambda>r. map2 (\<lambda>x off. fl64 (x + off)) (take (2 * (ncols b div 2)) r)
                        (tile [5, 3] (ncols b div 2)) @
                      drop (2 * (ncols b div 2)) r) (rows b) ! i ! j =
            (if j < 2 * (ncols b div 2) then fl64 (rows b ! i ! j + (if even j then 5 else 3))
             else rows b ! i ! j))"
proof -
  have d2: "dim2 img = length fill"
    using assms(4) by (auto simp: bcast_def split: if_splits)
  note ar = assign_region_100[OF assms(1,2,3) d2]
  have run: "Expand mean 0 (fl64 (6 / 5)) left top' (img, Some b, labels) =
           Inr (\<lparr>dim0 = 120, dim1 = 120, dim2 = dim2 img,
                 cells = replicate 3 (replicate 120 fill) @
                         map (\<lambda>srow. replicate 5 fill @ srow @ replicate 15 fill) (cells img) @
                         replicate 17 (replicate 120 fill)\<rparr>,
                Some (b\<lparr>rows :=
                        map (\<lambda>r. map2 (\<lambda>x off. fl64 (x + off)) (take (2 * (ncols b div 2)) r)
                                    (tile [5, 3] (ncols b div 2)) @
                                  drop (2 * (ncols b div 2)) r) (rows b)\<rparr>),
                labels)"
    using assms(2-9) ar d2[symmetric]
    by (simp add: Expand_def Let_def canvas_height shift_pairs_def)
  have cs: "length (cells img) = 100" "\<forall>row \<in> set (cells img). length row = 100"
    using assms(1,2,3) by (auto simp: wf_array3_def list_all_iff)
  have canvas: "(replicate 3 (replicate 120 fill) @
             map (\<lambda>srow. replicate 5 fill @ srow @ replicate 15 fill) (cells img) @
             replicate 17 (replicate 120 fill)) ! y ! x =
            (if 3 \<le> y \<and> y < 103 \<and> 5 \<le> x \<and> x < 105 then cells img ! (y - 3) ! (x - 5)
             else fill)" if "y < 120" "x < 120" for y x
    by (rule canvas_nth[OF cs that])
  have box: "map (\<lambda>r. map2 (\<lambda>x off. fl64 (x + off)) (take (2 * (ncols b div 2)) r)
                        (tile [5, 3] (ncols b div 2)) @
                      drop (2 * (ncols b div 2)) r) (rows b) ! i ! j =
            (if j < 2 * (ncols b div 2) then fl64 (rows b ! i ! j + (if even j then 5 else 3))
             else rows b ! i ! j)" if "i < length (rows b)" "j < ncols b" for i j
  proof -
    from that(1) assms(5) have len: "length (rows b ! i) = ncols b"
      by (simp add: wf_array2_def list_all_length)
    from shifted_row_nth[OF len that(2), of "\<lambda>x off. fl64 (x + off)" 5 3] that(1)
    show ?thesis by (simp add: if_distrib)
  qed
  show ?thesis
    using run canvas box by blast
qed

theorem Expand_example_witness:
  "wf_array3 \<lparr>dim0 = 100, dim1 = 100, dim2 = 3, cells = replicate 100 (replicate 100 [1, 2, 3])\<rparr> \<and>
   wf_array2 \<lparr>ncols = 8, rows = [[10, 10, 50, 10, 50, 50, 10, 50]]\<rparr> \<and>
   bcast 3 [104, 117, 123] = Some [104, 117, (123::real)] \<and>
   py_int 5 = 5 \<and> py_int (fl64 (5 + 100)) = 105 \<and> py_int 3 = 3 \<and> py_int (fl64 (3 + 100)) = 103 \<and>
   Expand [104, 117, 123] 0 (fl64 (6 / 5)) 5 3
     (\<lparr>dim0 = 100, dim1 = 100, dim2 = 3, cells = replicate 100 (replicate 100 [1, 2, 3])\<rparr>,
      Some \<lparr>ncols = 8, rows = [[10, 10, 50, 10, 50, 50, 10, 50]]\<rparr>, Some [1]) =
     Inr (\<lparr>dim0 = 120, dim1 = 120, dim2 = 3,
           cells = replicate 3 (replicate 120 [104, 117, 123]) @
                   replicate 100 (replicate 5 [104, 117, 123] @ replicate 100 [1, 2, 3] @
                                  replicate 15 [104, 117, 123]) @
                   replicate 17 (replicate 120 [104, 117, 123])\<rparr>,
          Some \<lparr>ncols = 8, rows = [[15, 13, 55, 13, 55, 53, 15, 53]]\<rparr>, Some [1])"
proof -
  have h1: "wf_array3 \<lparr>dim0 = 100, dim1 = 100, dim2 = 3,
                        cells = replicate 100 (replicate 100 [1, 2, 3])\<rparr>"
    by (simp add: wf_array3_def list_all_iff)
  have h2: "wf_array2 \<lparr>ncols = 8, rows = [[10, 10, 50, 10, 50, 50, 10, 50]]\<rparr>"
    by (simp add: wf_array2_def)
  have hb: "bcast (dim2 \<lparr>dim0 = 100, dim1 = 100, dim2 = 3,
                           cells = replicate 100 (replicate 100 [1, 2, 3])\<rparr>) [104, 117, 123] =
            Some [104, 117, (123::real)]"
    by (simp add: bcast_def)
  have h3: "py_int 5 = 5" "py_int (fl64 (5 + 100)) = 105" "py_int 3 = 3"
    "py_int (fl64 (3 + 100)) = 103"
    by (simp_all add: py_int_def fl_eval)
  have sums: "fl64 15 = 15" "fl64 13 = 13" "fl64 55 = 55" "fl64 53 = 53"
    by (simp_all add: fl_eval)
  have "Expand [104, 117, 123] 0 (fl64 (6 / 5)) 5 3
     (\<lparr>dim0 = 100, dim1 = 100, dim2 = 3, cells = replicate 100 (replicate 100 [1, 2, 3])\<rparr>,
      Some \<lparr>ncols = 8, rows = [[10, 10, 50, 10, 50, 50, 10, 50]]\<rparr>, Some [1]) =
     Inr (\<lparr>dim0 = 120, dim1 = 120, dim2 = 3,
           cells = replicate 3 (replicate 120 [104, 117, 123]) @
                   replicate 100 (replicate 5 [104, 117, 123] @ replicate 100 [1, 2, 3] @
                                  replicate 15 [104, 117, 123]) @
                   replicate 17 (replicate 120 [104, 117, 123])\<rparr>,
          Some \<lparr>ncols = 8, rows = [[15, 13, 55, 13, 55, 53, 15, 53]]\<rparr>, Some [1])"
    using Expand_example[OF h1 _ _ hb h2 h3, of "Some [1]", THEN conjunct1]
    by (simp add: tile_pair_4 sums)
  with h1 h2 h3 hb show ?thesis by simp
qed

section \<open>Rows and labels stay paired\<close>

lemma preserves_pairingI:
  assumes "\<And>img b l t'. f (img, Some b, Some l) = Inr t' \<Longrightarrow>
             \<exists>img' b' g. t' = (img', Some b', Some l) \<and> rows b' = map g (rows b)"
  shows "preserves_pairing f"
  unfolding preserves_pairing_def
proof (intro allI impI)
  fix img b l t'
  assume "f (img, Some b, Some l) = Inr t'"
  from assms[OF this] obtain img' b' g where
    "t' = (img', Some b', Some l)" "rows b' = map g (rows b)" by blast
  then show "\<exists>img' b' g. t' = (img', Some b', Some l) \<and>
                      length (rows b') = length (rows b) \<and> rows b' = map g (rows b)"
    by (intro exI[of _ img'] exI[of _ b'] exI[of _ g]) simp
qed

lemma keep_rows: "\<exists>g. rows b = map g (rows b)"
  by (rule exI[of _ "\<lambda>r. r"]) simp

lemma pres_ConvertFromInts: "preserves_pairing ConvertFromInts"
  by (rule preserves_pairingI) (auto simp: ConvertFromInts_def intro: keep_rows)

lemma pres_Normalize: "preserves_pairing (Normalize mean var)"
  by (rule preserves_pairingI)
    (auto simp: Normalize_def split: option.splits intro: keep_rows)

lemma pres_RandomSaturation: "preserves_pairing (RandomSaturation coin u)"
  by (rule preserves_pairingI)
    (auto simp: RandomSaturation_def split: if_splits intro: keep_rows)

lemma pres_RandomHue: "preserves_pairing (RandomHue coin u)"
  by (rule preserves_pairingI)
    (auto simp: RandomHue_def split: if_splits intro: keep_rows)

lemma pres_RandomLightingNoise: "preserves_pairing (RandomLightingNoise coin pick)"
  by (rule preserves_pairingI)
    (auto simp: RandomLightingNoise_def split: if_splits sum.splits intro: keep_rows)

lemma pres_ConvertColor: "preserves_pairing (ConvertColor cvtColor current transform)"
  by (rule preserves_pairingI)
    (auto simp: ConvertColor_def split: if_splits intro: keep_rows)

lemma pres_RandomContrast: "preserves_pairing (RandomContrast coin a)"
  by (rule preserves_pairingI)
    (auto simp: RandomContrast_def split: if_splits intro: keep_rows)

lemma pres_RandomBrightness: "preserves_pairing (RandomBrightness coin d)"
  by (rule preserves_pairingI)
    (auto simp: RandomBrightness_def split: if_splits intro: keep_rows)

lemma pres_ToCV2Image: "preserves_pairing ToCV2Image"
  by (rule preserves_pairingI) (auto simp: ToCV2Image_def intro: keep_rows)

lemma pres_ToTensor: "preserves_pairing ToTensor"
  by (rule preserves_pairingI) (auto simp: ToTensor_def intro: keep_rows)

lemma pres_Resize: "preserves_pairing (Resize cv_resize sz)"
proof (rule preserves_pairingI)
  fix img b l t'
  assume "Resize cv_resize sz (img, Some b, Some l) = Inr t'"
  then obtain b' where t': "t' = (cv_resize img sz sz, Some b', Some l)"
    and m: "mul_bcast b (tile [fl32 (fl64 (real sz / real (dim1 img))),
                               fl32 (fl64 (real sz / real (dim0 img)))] 4) = Inr b'"
    by (auto simp: Resize_def Let_def split: if_splits sum.splits)
  from m have "\<exists>g. rows b' = map g (rows b)"
    by (auto simp: mul_bcast_def split: if_splits)
  with t' show "\<exists>img' b' g. t' = (img', Some b', Some l) \<and> rows b' = map g (rows b)"
    by blast
qed

lemma pres_Expand: "preserves_pairing (Expand mean coin ratio left top')"
proof (rule preserves_pairingI)
  fix img b l t'
  assume run: "Expand mean coin ratio left top' (img, Some b, Some l) = Inr t'"
  show "\<exists>img' b' g. t' = (img', Some b', Some l) \<and> rows b' = map g (rows b)"
  proof (cases "coin = 0")
    case False
    with run show ?thesis by (auto simp: Expand_def intro: keep_rows)
  next
    case True
    with run obtain img' where
      "t' = (img', Some (shift_pairs (\<lambda>x off. fl64 (x + off))
                           [real_of_int (py_int left), real_of_int (py_int top')] b), Some l)"
      by (auto simp: Expand_def Let_def split: if_splits option.splits sum.splits)
    then show ?thesis
      by (auto simp: shift_pairs_def Let_def)
  qed
qed

lemma map2_map_same: "map2 f xs (map h xs) = map (\<lambda>x. f x (h x)) xs"
  by (induction xs) simp_all

lemma pres_RandomMirror: "preserves_pairing (RandomMirror coin)"
proof (rule preserves_pairingI)
  fix img b l t'
  assume run: "RandomMirror coin (img, Some b, Some l) = Inr t'"
  show "\<exists>img' b' g. t' = (img', Some b', Some l) \<and> rows b' = map g (rows b)"
  proof (cases "coin = 0")
    case True
    with run show ?thesis by (auto simp: RandomMirror_def intro: keep_rows)
  next
    case False
    let ?v = "rsub_scalar (real (dim1 img))
                (take_cols (slice_indices (Some 2) None (- 2) (ncols b)) b)"
    from False run obtain b' where t': "t' = (flip_horizontal img, Some b', Some l)"
      and a: "assign_cols (slice_indices (Some 0) None 2 (ncols b)) ?v b = Inr b'"
      by (auto simp: RandomMirror_def split: sum.splits)
    have rv: "rows ?v = map (\<lambda>r. map (\<lambda>x. fl64 (real (dim1 img) - x))
                (map (\<lambda>j. r ! j) (slice_indices (Some 2) None (- 2) (ncols b)))) (rows b)"
      by (simp add: rsub_scalar_def take_cols_def)
    from a have "\<exists>g. rows b' = map g (rows b)"
      unfolding assign_cols_def rv
      by (auto simp: map2_map_same split: if_splits)
    with t' show ?thesis by blast
  qed
qed

lemma pres_Rotate: "preserves_pairing (Rotate warp M pick)"
  by (rule preserves_pairingI)
    (auto simp: Rotate_def split: if_splits intro: keep_rows)


lemma preserves_pairingD:
  assumes "preserves_pairing f" and "f (img, Some b, Some l) = Inr t'"
  obtains img' b' g where "t' = (img', Some b', Some l)" "rows b' = map g (rows b)"
  using assms unfolding preserves_pairing_def by blast

lemma pres_Compose:
  assumes "\<forall>f \<in> set fs. preserves_pairing f"
  shows "preserves_pairing (Compose fs)"
  using assms
proof (induction fs)
  case Nil
  show ?case
    by (rule preserves_pairingI) (auto intro: keep_rows)
next
  case (Cons f fs)
  then have pf: "preserves_pairing f" and pfs: "preserves_pairing (Compose fs)"
    by simp_all
  show ?case
  proof (rule preserves_pairingI)
    fix img b l t'
    assume run: "Compose (f # fs) (img, Some b, Some l) = Inr t'"
    then obtain t1 where f: "f (img, Some b, Some l) = Inr t1" and rest: "Compose fs t1 = Inr t'"
      by (auto split: sum.splits)
    from pf f obtain img1 b1 g1 where t1: "t1 = (img1, Some b1, Some l)"
      and r1: "rows b1 = map g1 (rows b)"
      by (rule preserves_pairingD)
    from pfs rest[unfolded t1] obtain img' b' g2 where t': "t' = (img', Some b', Some l)"
      and r2: "rows b' = map g2 (rows b1)"
      by (rule preserves_pairingD)
    from r1 r2 have "rows b' = map (\<lambda>r. g2 (g1 r)) (rows b)" by simp
    with t' show "\<exists>img' b' g. t' = (img', Some b', Some l) \<and> rows b' = map g (rows b)"
      by blast
  qed
qed

lemma pres_pd: "\<forall>f \<in> set (pd cvtColor dr). preserves_pairing f"
  by (simp add: pd_def pres_RandomContrast pres_ConvertColor pres_RandomHue)

lemma pres_PhotometricDistort: "preserves_pairing (PhotometricDistort cvtColor dr)"
proof (rule preserves_pairingI)
  fix img b l t'
  assume run: "PhotometricDistort cvtColor dr (img, Some b, Some l) = Inr t'"
  let ?distort = "if order_coin dr \<noteq> 0 then Compose (butlast (pd cvtColor dr))
                  else Compose (tl (pd cvtColor dr))"
  have "\<forall>f \<in> set (butlast (pd cvtColor dr)). preserves_pairing f"
    and "\<forall>f \<in> set (tl (pd cvtColor dr)). preserves_pairing f"
    by (simp_all add: pd_def pres_RandomContrast pres_ConvertColor pres_RandomHue)
  then have pdist: "preserves_pairing ?distort"
    by (simp add: pres_Compose)
  from run obtain t1 where b1: "RandomBrightness (brightness_coin dr) (brightness_delta dr)
        (img, Some b, Some l) = Inr t1"
    by (auto simp: PhotometricDistort_def split: sum.splits)
  from pres_RandomBrightness b1 obtain img1 b1' g1 where t1: "t1 = (img1, Some b1', Some l)"
      and r1: "rows b1' = map g1 (rows b)"
    by (rule preserves_pairingD)
  from run b1 obtain im bx lb where d: "?distort t1 = Inr (im, bx, lb)"
      and t': "t' = (map_cells (np_clip 0 255) im, bx, lb)"
    by (auto simp: PhotometricDistort_def Let_def split: sum.splits)
  from pdist d[unfolded t1] obtain img2 b2 g2 where "(im, bx, lb) = (img2, Some b2, Some l)"
      and r2: "rows b2 = map g2 (rows b1')"
    by (rule preserves_pairingD)
  with t' r1 have "t' = (map_cells (np_clip 0 255) im, Some b2, Some l)"
    "rows b2 = map (\<lambda>r. g2 (g1 r)) (rows b)"
    by simp_all
  then show "\<exists>img' b' g. t' = (img', Some b', Some l) \<and> rows b' = map g (rows b)"
    by blast
qed


lemma pres_RandomSampleCropPoly:
  assumes "RandomSampleCropPoly rds (img, Some b, Some l) = Some (Inr t')"
  shows "\<exists>img' b' g. t' = (img', Some b', Some l) \<and>
            length (rows b') = length (rows b) \<and> rows b' = map g (rows b)"
proof -
  from RandomSampleCropPoly_result[OF assms]
  consider "t' = (img, Some b, Some l)"
    | d where "t' = (crop_image (rect_of d) img,
                     Some (shift_pairs (-) (map real_of_int (take 2 (rect_of d))) b), Some l)"
    by blast
  then show ?thesis
  proof cases
    case 1
    then show ?thesis
      by (intro exI[of _ img] exI[of _ b] exI[of _ "\<lambda>r. r"]) simp
  next
    case 2
    then show ?thesis
      by (auto simp: shift_pairs_def Let_def)
  qed
qed

lemma select_all: "length xs = n \<Longrightarrow> select (replicate n True) xs = xs"
  by (simp add: select_def zip_replicate1 comp_def)

lemma select_lengths:
  "length xs = length msk \<Longrightarrow> length ys = length msk \<Longrightarrow>
   length (select msk xs) = length (select msk ys)"
proof (induction msk arbitrary: xs ys)
  case Nil
  then show ?case by (simp add: select_def)
next
  case (Cons m msk)
  from Cons.prems obtain x xs' y ys' where "xs = x # xs'" "ys = y # ys'"
    "length xs' = length msk" "length ys' = length msk"
    by (auto simp: length_Suc_conv)
  with Cons.IH[of xs' ys'] show ?case
    by (simp add: select_def)
qed

lemma crop_trial_Return:
  assumes "crop_trial mode (img, Some b, Some l) d = Return t'"
  shows "length l = length (rows b) \<and>
         t' = (crop_image (rect_of d) img,
               Some (b\<lparr>rows := map (crop_adjust_row (rect_of d))
                                 (select (map (crop_mask_row (rect_of d)) (rows b)) (rows b))\<rparr>),
               Some (select (map (crop_mask_row (rect_of d)) (rows b)) l))"
proof (cases "jaccard_numpy b (rect_of d)")
  case (Inl e)
  with assms show ?thesis
    by (simp add: crop_trial_def Let_def split: if_splits)
next
  case (Inr overlap)
  with assms show ?thesis
    by (simp add: crop_trial_def Let_def split: if_splits)
qed

lemma filters_pairing_trial:
  assumes "crop_trial mode (img, Some b, Some l) d = Return t'"
  shows "filters_pairing b l t'"
proof -
  let ?msk = "map (crop_mask_row (rect_of d)) (rows b)"
  from crop_trial_Return[OF assms] have len: "length l = length (rows b)"
    and t': "t' = (crop_image (rect_of d) img,
               Some (b\<lparr>rows := map (crop_adjust_row (rect_of d)) (select ?msk (rows b))\<rparr>),
               Some (select ?msk l))"
    by simp_all
  have "length (select ?msk (rows b)) = length (select ?msk l)"
    using len by (intro select_lengths) simp_all
  with t' show ?thesis
    unfolding filters_pairing_def
    by (intro exI[of _ "crop_image (rect_of d) img"]
        exI[of _ "b\<lparr>rows := map (crop_adjust_row (rect_of d)) (select ?msk (rows b))\<rparr>"]
        exI[of _ "select ?msk l"] exI[of _ ?msk] exI[of _ "crop_adjust_row (rect_of d)"]) simp
qed

lemma filters_pairing_same:
  assumes "length l = length (rows b)"
  shows "filters_pairing b l (img, Some b, Some l)"
  unfolding filters_pairing_def
  using assms
  by (intro exI[of _ img] exI[of _ b] exI[of _ l] exI[of _ "replicate (length (rows b)) True"]
      exI[of _ "\<lambda>r. r"]) (simp add: select_all)

lemma RandomSampleCrop_step:
  assumes "d_choice rd < length crop_sample_options"
    and "crop_sample_options ! d_choice rd = Some mode"
  shows "RandomSampleCrop (rd # rds) t =
           (case trials (crop_trial mode t) 50 (d_trials rd) of
              None \<Rightarrow> None
            | Some Continue \<Rightarrow> RandomSampleCrop rds t
            | Some (Return r) \<Rightarrow> Some (Inr r)
            | Some (Raise e) \<Rightarrow> Some (Inl e))"
  using assms by simp

lemma filters_RandomSampleCrop:
  assumes "RandomSampleCrop rds (img, Some b, Some l) = Some (Inr t')"
    and "length l = length (rows b)"
  shows "filters_pairing b l t'"
  using assms(1)
proof (induction rds)
  case Nil
  then show ?case by simp
next
  case (Cons rd rds)
  show ?case
  proof (cases "length crop_sample_options \<le> d_choice rd")
    case True
    with Cons.prems show ?thesis by simp
  next
    case False
    then have inrange: "d_choice rd < length crop_sample_options" by simp
    show ?thesis
    proof (cases "crop_sample_options ! d_choice rd")
      case None
      with Cons.prems inrange have "t' = (img, Some b, Some l)" by simp
      with assms(2) show ?thesis by (simp add: filters_pairing_same)
    next
      case (Some mode)
      let ?tr = "trials (crop_trial mode (img, Some b, Some l)) 50 (d_trials rd)"
      note step = RandomSampleCrop_step[OF inrange Some, of rds "(img, Some b, Some l)"]
      show ?thesis
      proof (cases ?tr)
        case None
        with step Cons.prems show ?thesis by simp
      next
        case (Some outcome)
        note tr = this
        show ?thesis
        proof (cases outcome)
          case Continue
          with step tr Cons.prems
          have "RandomSampleCrop rds (img, Some b, Some l) = Some (Inr t')" by simp
          then show ?thesis by (rule Cons.IH)
        next
          case (Return r)
          with step tr Cons.prems have "r = t'" by simp
          with tr Return have "?tr = Some (Return t')" by simp
          from trials_Return[OF this] obtain d where
            "crop_trial mode (img, Some b, Some l) d = Return t'"
            by auto
          then show ?thesis by (rule filters_pairing_trial)
        next
          case (Raise e)
          with step tr Cons.prems show ?thesis by simp
        qed
      qed
    qed
  qed
qed


lemma pres_Augmentation_inference: "preserves_pairing (Augmentation_inference cv_resize sz)"
proof -
  have "preserves_pairing
          (Compose [ConvertFromInts, Resize cv_resize sz, Normalize default_mean default_var, ToTensor])"
    by (rule pres_Compose) (simp add: pres_ConvertFromInts pres_Resize pres_Normalize pres_ToTensor)
  moreover have "Augmentation_inference cv_resize sz =
      Compose [ConvertFromInts, Resize cv_resize sz, Normalize default_mean default_var, ToTensor]"
    by (rule ext) (simp only: Augmentation_inference_def)
  ultimately show ?thesis by simp
qed

lemma pres_Augmentation_traininig:
  assumes "Augmentation_traininig cvtColor cv_resize sz dr rds (img, Some b, Some l) = Some (Inr t')"
  shows "\<exists>img' b' g. t' = (img', Some b', Some l) \<and>
            length (rows b') = length (rows b) \<and> rows b' = map g (rows b)"
proof -
  let ?head = "Compose [ConvertFromInts, PhotometricDistort cvtColor dr]"
  let ?tail = "Compose [Resize cv_resize sz, Normalize default_mean default_var, ToTensor]"
  have ph: "preserves_pairing ?head"
    by (rule pres_Compose) (simp add: pres_ConvertFromInts pres_PhotometricDistort)
  have pt: "preserves_pairing ?tail"
    by (rule pres_Compose) (simp add: pres_Resize pres_Normalize pres_ToTensor)
  from assms obtain t1 where h: "?head (img, Some b, Some l) = Inr t1"
    by (cases "?head (img, Some b, Some l)") (auto simp: Augmentation_traininig_def)
  from ph h obtain img1 b1 g1 where t1: "t1 = (img1, Some b1, Some l)"
    and r1: "rows b1 = map g1 (rows b)"
    by (rule preserves_pairingD)
  from assms h obtain t2 where c: "RandomSampleCropPoly rds t1 = Some (Inr t2)"
    and f: "?tail t2 = Inr t'"
    by (auto simp: Augmentation_traininig_def split: option.splits sum.splits)
  from pres_RandomSampleCropPoly[OF c[unfolded t1]] obtain img2 b2 g2 where
    t2: "t2 = (img2, Some b2, Some l)" and r2: "rows b2 = map g2 (rows b1)"
    by blast
  from pt f[unfolded t2] obtain img' b' g3 where t': "t' = (img', Some b', Some l)"
    and r3: "rows b' = map g3 (rows b2)"
    by (rule preserves_pairingD)
  from r1 r2 r3 have "rows b' = map (\<lambda>r. g3 (g2 (g1 r))) (rows b)" by simp
  with t' show ?thesis
    by (intro exI[of _ img'] exI[of _ b'] exI[of _ "\<lambda>r. g3 (g2 (g1 r))"]) simp
qed

text \<open>
  Claim C1. Every transform that takes geometry and labels keeps them paired. On
  geometry and labels that are present, each transform but the classical cropper
  returns the labels unchanged and a geometry with as many rows, row \<open>i\<close> made from
  input row \<open>i\<close>: so the row count equals the label count on output whenever it does
  on input. This holds for \<^verbatim>\<open>RandomSampleCropPoly\<close> (all rows, labels unchanged), for
  \<^verbatim>\<open>Compose\<close> of such transforms and for both presets. \<^verbatim>\<open>RandomSampleCrop\<close>, on
  inputs with as many labels as rows, returns the rows and the labels selected by the
  same boolean mask, so both shrink together.
\<close>

theorem pairing_preserved:
  "preserves_pairing ConvertFromInts \<and>
   preserves_pairing (Normalize mean var) \<and>
   preserves_pairing (Resize cv_resize sz) \<and>
   preserves_pairing (RandomSaturation c1 u1) \<and>
   preserves_pairing (RandomHue c2 u2) \<and>
   preserves_pairing (RandomLightingNoise c3 pick) \<and>
   preserves_pairing (ConvertColor cvtColor current transform) \<and>
   preserves_pairing (RandomContrast c4 alpha) \<and>
   preserves_pairing (RandomBrightness c5 delta) \<and>
   preserves_pairing ToCV2Image \<and>
   preserves_pairing ToTensor \<and>
   preserves_pairing (Expand fill c6 ratio left top') \<and>
   preserves_pairing (RandomMirror c7) \<and>
   preserves_pairing (Rotate warp M c8) \<and>
   preserves_pairing (PhotometricDistort cvtColor dr) \<and>
   ((\<forall>f \<in> set fs. preserves_pairing f) \<longrightarrow> preserves_pairing (Compose fs)) \<and>
   preserves_pairing (Augmentation_inference cv_resize sz) \<and>
   (\<forall>t'. RandomSampleCropPoly rds (img, Some b, Some l) = Some (Inr t') \<longrightarrow>
      (\<exists>img' b' g. t' = (img', Some b', Some l) \<and>
                    length (rows b') = length (rows b) \<and> rows b' = map g (rows b))) \<and>
   (\<forall>t'. Augmentation_traininig cvtColor cv_resize sz dr rds (img, Some b, Some l) = Some (Inr t') \<longrightarrow>
      (\<exists>img' b' g. t' = (img', Some b', Some l) \<and>
                    length (rows b') = length (rows b) \<and> rows b' = map g (rows b))) \<and>
   (\<forall>t'. length l = length (rows b) \<and>
         RandomSampleCrop rds (img, Some b, Some l) = Some (Inr t') \<longrightarrow>
      filters_pairing b l t')"
proof (intro conjI)
  show "preserves_pairing ConvertFromInts" by (rule pres_ConvertFromInts)
  show "preserves_pairing (Normalize mean var)" by (rule pres_Normalize)
  show "preserves_pairing (Resize cv_resize sz)" by (rule pres_Resize)
  show "preserves_pairing (RandomSaturation c1 u1)" by (rule pres_RandomSaturation)
  show "preserves_pairing (RandomHue c2 u2)" by (rule pres_RandomHue)
  show "preserves_pairing (RandomLightingNoise c3 pick)" by (rule pres_RandomLightingNoise)
  show "preserves_pairing (ConvertColor cvtColor current transform)" by (rule pres_ConvertColor)
  show "preserves_pairing (RandomContrast c4 alpha)" by (rule pres_RandomContrast)
  show "preserves_pairing (RandomBrightness c5 delta)" by (rule pres_RandomBrightness)
  show "preserves_pairing ToCV2Image" by (rule pres_ToCV2Image)
  show "preserves_pairing ToTensor" by (rule pres_ToTensor)
  show "preserves_pairing (Expand fill c6 ratio left top')" by (rule pres_Expand)
  show "preserves_pairing (RandomMirror c7)" by (rule pres_RandomMirror)
  show "preserves_pairing (Rotate warp M c8)" by (rule pres_Rotate)
  show "preserves_pairing (PhotometricDistort cvtColor dr)" by (rule pres_PhotometricDistort)
  show "(\<forall>f \<in> set fs. preserves_pairing f) \<longrightarrow> preserves_pairing (Compose fs)"
    by (rule impI) (rule pres_Compose)
  show "preserves_pairing (Augmentation_inference cv_resize sz)"
    by (rule pres_Augmentation_inference)
  show "\<forall>t'. RandomSampleCropPoly rds (img, Some b, Some l) = Some (Inr t') \<longrightarrow>
      (\<exists>img' b' g. t' = (img', Some b', Some l) \<and>
                    length (rows b') = length (rows b) \<and> rows b' = map g (rows b))"
    by (intro allI impI) (rule pres_RandomSampleCropPoly)
  show "\<forall>t'. Augmentation_traininig cvtColor cv_resize sz dr rds (img, Some b, Some l) = Some (Inr t') \<longrightarrow>
      (\<exists>img' b' g. t' = (img', Some b', Some l) \<and>
                    length (rows b') = length (rows b) \<and> rows b' = map g (rows b))"
    by (intro allI impI) (rule pres_Augmentation_traininig)
  show "\<forall>t'. length l = length (rows b) \<and>
         RandomSampleCrop rds (img, Some b, Some l) = Some (Inr t') \<longrightarrow>
      filters_pairing b l t'"
  proof (intro allI impI)
    fix t'
    assume "length l = length (rows b) \<and> RandomSampleCrop rds (img, Some b, Some l) = Some (Inr t')"
    then show "filters_pairing b l t'"
      using filters_RandomSampleCrop[of rds img b l t'] by simp
  qed
qed


lemma example_crop_trial:
  "crop_trial (Some 0.9, None) (example_image100, Some example_boxes, Some [1, 2])
     \<lparr>d_w = 100, d_h = 100, d_left = 0, d_top = 0\<rparr> =
   Return (example_image100, Some \<lparr>ncols = 4, rows = [[0, 0, 100, 100]]\<rparr>, Some [1])"
  by (simp add: crop_trial_def rect_of_def py_int_def jaccard_numpy_def box_shape_check_def
      intersect_row_def area_row_def np_div_def np_min_def np_min2_def np_max_def np_max2_def
      bound_lo_def bound_hi_def crop_mask_row_def crop_adjust_row_def select_def crop_image_def
      slice_len_def py_slice_def adjust_pos_def example_boxes_def example_image100_def Let_def)

lemma example_crop_run:
  "RandomSampleCrop [\<lparr>d_choice = 1, d_trials = [\<lparr>d_w = 100, d_h = 100, d_left = 0, d_top = 0\<rparr>]\<rparr>]
     (example_image100, Some example_boxes, Some [1, 2]) =
   Some (Inr (example_image100, Some \<lparr>ncols = 4, rows = [[0, 0, 100, 100]]\<rparr>, Some [1]))"
proof -
  have "RandomSampleCrop [\<lparr>d_choice = 1, d_trials = [\<lparr>d_w = 100, d_h = 100, d_left = 0, d_top = 0\<rparr>]\<rparr>]
          (example_image100, Some example_boxes, Some [1, 2]) =
        (case trials (crop_trial (Some 0.9, None) (example_image100, Some example_boxes, Some [1, 2]))
               50 (d_trials \<lparr>d_choice = 1,
                             d_trials = [\<lparr>d_w = 100, d_h = 100, d_left = 0, d_top = 0\<rparr>]\<rparr>) of
           None \<Rightarrow> None
         | Some Continue \<Rightarrow> RandomSampleCrop [] (example_image100, Some example_boxes, Some [1, 2])
         | Some (Return r) \<Rightarrow> Some (Inr r)
         | Some (Raise e) \<Rightarrow> Some (Inl e))"
    by (rule RandomSampleCrop_step) (simp_all add: crop_sample_options_def)
  then show ?thesis
    by (simp add: trials_pos example_crop_trial)
qed

theorem pairing_preserved_witness:
  "length [1, 2 :: int] = length (rows example_boxes) \<and>
   RandomSampleCrop [\<lparr>d_choice = 1, d_trials = [\<lparr>d_w = 100, d_h = 100, d_left = 0, d_top = 0\<rparr>]\<rparr>]
     (example_image100, Some example_boxes, Some [1, 2]) =
   Some (Inr (example_image100, Some \<lparr>ncols = 4, rows = [[0, 0, 100, 100]]\<rparr>, Some [1])) \<and>
   filters_pairing example_boxes [1, 2]
     (example_image100, Some \<lparr>ncols = 4, rows = [[0, 0, 100, 100]]\<rparr>, Some [1]) \<and>
   RandomSampleCropPoly [\<lparr>d_choice = 1, d_trials = [example_draw]\<rparr>]
     (example_image, Some example_polygons, Some [1, 1, 1]) =
   Some (Inr (\<lparr>dim0 = 40, dim1 = 40, dim2 = 3, cells = replicate 40 (replicate 40 [0, 0, 0])\<rparr>,
              Some \<lparr>ncols = 8, rows = [[5, 5, 45, 5, 45, 45, 5, 45],
                                       [5, 5, 15, 5, 15, 15, 5, 15],
                                       [20, 20, 30, 20, 30, 30, 20, 30]]\<rparr>,
              Some [1, 1, 1])) \<and>
   length [[5, 5, 45, 5, 45, 45, 5, 45], [5, 5, 15, 5, 15, 15, 5, 15],
           [20, 20, 30, 20, 30, 30, 20, (30::real)]] = length (rows example_polygons)"
proof -
  have len: "length [1, 2 :: int] = length (rows example_boxes)"
    by (simp add: example_boxes_def)
  have "\<forall>t'. length [1, 2 :: int] = length (rows example_boxes) \<and>
         RandomSampleCrop
           [\<lparr>d_choice = 1, d_trials = [\<lparr>d_w = 100, d_h = 100, d_left = 0, d_top = 0\<rparr>]\<rparr>]
           (example_image100, Some example_boxes, Some [1, 2]) = Some (Inr t') \<longrightarrow>
      filters_pairing example_boxes [1, 2] t'"
    using pairing_preserved[where l = "[1, 2]" and b = example_boxes and img = example_image100
        and rds = "[\<lparr>d_choice = 1, d_trials = [\<lparr>d_w = 100, d_h = 100, d_left = 0, d_top = 0\<rparr>]\<rparr>]",
        THEN conjunct2,
        THEN conjunct2,
        THEN conjunct2,
        THEN conjunct2,
        THEN conjunct2,
        THEN conjunct2,
        THEN conjunct2,
        THEN conjunct2,
        THEN conjunct2,
        THEN conjunct2,
        THEN conjunct2,
        THEN conjunct2,
        THEN conjunct2,
        THEN conjunct2,
        THEN conjunct2,
        THEN conjunct2,
        THEN conjunct2,
        THEN conjunct2,
        THEN conjunct2]
    by this
  with len example_crop_run have "filters_pairing example_boxes [1, 2]
     (example_image100, Some \<lparr>ncols = 4, rows = [[0, 0, 100, 100]]\<rparr>, Some [1])"
    by blast
  moreover have "length [[5, 5, 45, 5, 45, 45, 5, 45], [5, 5, 15, 5, 15, 15, 5, 15],
           [20, 20, 30, 20, 30, 30, 20, (30::real)]] = length (rows example_polygons)"
    by (simp add: example_polygons_def)
  ultimately show ?thesis
    using len example_crop_run example_run by blast
qed

end
